theory Spec2Isabelle
  imports Complex_Main
begin

section \<open>Data model of the harvester (src/main/Main.js)\<close>

text \<open>
  The harvester is a Node.js script. Its numbers are either \<open>BN\<close> values
  (arbitrary-precision integers built by \<open>web3.utils.toBN\<close> from unsigned chain
  reads) or JavaScript numbers holding small counts (gas units, nonces). All of them
  are non-negative and are modelled as \<open>nat\<close>; on non-negative operands the
  truncating division of \<open>BN.div\<close> is \<open>div\<close>. \<open>BN.div\<close> asserts that the divisor
  is not zero and throws otherwise, which the model keeps as an error value.
\<close>

type_synonym address = string

datatype error =
    RpcError string      \<comment> \<open>a rejected remote call\<close>
  | DivisionByZero       \<comment> \<open>bn.js asserts that a divisor is not zero\<close>
  | TypeError            \<comment> \<open>property read on \<open>undefined\<close>\<close>

datatype abi = ABI_CONTROLLER | ABI_SNOWGLOBE | ABI_STRATEGY | ABI_PANGOLIN_POOL

text \<open>
  \<open>new web3.eth.Contract(abi, address)\<close>: a handle, no remote call. The field
  \<open>_address\<close> is read back as the address the handle was built with (web3 stores
  it in checksum case, which only changes the case of its letters).
\<close>

datatype contract = Contract abi address

fun address_of :: "contract \<Rightarrow> address" where
  "address_of (Contract a addr) = addr"

text \<open>\<open>strategy.methods.harvest()\<close>: an unsent call bound to the strategy.\<close>

datatype tx_intent = HarvestCall contract

text \<open>
  The configuration module \<open>config/Config\<close> is not part of the sources; it is a
  parameter of every function that reads \<open>CONFIG\<close>.
\<close>

record config =
  TEST_MODE :: bool
  WALLET_ADDRESS :: address
  WANTS :: "address list"
  CONTROLLER :: address
  INTERVAL :: nat
  STRATEGY_NAME :: "address \<Rightarrow> string option"

text \<open>
  The harvest record grows stage by stage. The object spread \<open>{...harvest, f: v}\<close>
  is the extension of a record by new fields.
\<close>

record harvest =
  strategy :: contract
  name :: "string option"
  harvestable :: nat
  treasuryFee :: nat
  treasuryMax :: nat

record harvest_tx = harvest +
  tx :: tx_intent

record harvest_gain = harvest_tx +
  gainWAVAX :: nat
  gainUSDT :: nat

record harvest_gas = harvest_gain +
  gas :: nat
  gasPrice :: nat

text \<open>The options object given to \<open>tx.send\<close>, and the receipt it resolves to.\<close>

record send_opts =
  sender :: address         \<comment> \<open>the option \<open>from\<close>\<close>
  send_gas :: nat           \<comment> \<open>the option \<open>gas\<close>\<close>
  send_gasPrice :: nat      \<comment> \<open>the option \<open>gasPrice\<close>\<close>
  nonce :: nat

record receipt =
  receipt_to :: address     \<comment> \<open>the field \<open>to\<close>\<close>
  transactionHash :: string

subsection \<open>Console lines and effects\<close>

text \<open>
  Console output is kept as structured lines: each constructor is one template string
  of the source and carries the values interpolated into it. The number formatting
  (\<open>Util.displayBNasFloat\<close>, \<open>toFixed\<close>) is outside the model.
\<close>

datatype line =
    ErrorFetchingInformation
  | ErrorAddingHarvestTx
  | ErrorAddingHarvestGain
  | ErrorAddingHarvestGas
  | Comparing address
  | GasCost nat
  | TreasuryGain nat
  | WouldHaveHarvested address
  | HarvestingStrategy address
  | SeparatorTestMode
  | Separator
  | StrategyLine address "string option"
  | Reinvested nat nat
  | TransactionLine "string option"
  | FailedToHarvest address "string option"
  | Reason "error option"
  | Thrown error

datatype timer_action = ProcessExit nat

datatype effect =
    Log line                        \<comment> \<open>\<open>console.log\<close>\<close>
  | Err line                        \<comment> \<open>\<open>console.error\<close>\<close>
  | ReadTransactionCount address    \<comment> \<open>\<open>web3.eth.getTransactionCount\<close>\<close>
  | Send tx_intent send_opts        \<comment> \<open>\<open>tx.send\<close>\<close>
  | SetTimeout nat timer_action     \<comment> \<open>\<open>setTimeout(action, ms)\<close>\<close>

text \<open>
  A function with effects returns the effects in the order the code performs them and
  its outcome: \<open>Inl\<close> for a thrown error or a rejected promise.
\<close>

type_synonym 'a outcome = "effect list \<times> (error + 'a)"

subsection \<open>BN arithmetic\<close>

definition bn_div :: "nat \<Rightarrow> nat \<Rightarrow> error + nat" where
  "bn_div a b = (if b = 0 then Inl DivisionByZero else Inr (a div b))"

section \<open>The profitability filter\<close>

text \<open>
  \<open>harvests.filter(callback)\<close>: the callback runs on the records in order; an
  exception thrown by it ends the whole filter.
\<close>

definition costAsAvax :: "harvest_gas \<Rightarrow> nat" where
  "costAsAvax h = gas h * gasPrice h"

definition treasuryGainAsAvax :: "harvest_gas \<Rightarrow> error + nat" where
  "treasuryGainAsAvax h = bn_div (gainWAVAX h * treasuryFee h) (treasuryMax h)"

fun filterHarvestByCostVsGain :: "harvest_gas list \<Rightarrow> harvest_gas list outcome" where
  "filterHarvestByCostVsGain [] = ([], Inr [])"
| "filterHarvestByCostVsGain (h # hs) =
     (case treasuryGainAsAvax h of
        Inl e \<Rightarrow> ([Log (Comparing (address_of (strategy h)))], Inl e)
      | Inr g \<Rightarrow>
          (let here = [Log (Comparing (address_of (strategy h))),
                       Log (GasCost (costAsAvax h)), Log (TreasuryGain g)]
           in case filterHarvestByCostVsGain hs of
                (es, Inl e) \<Rightarrow> (here @ es, Inl e)
              | (es, Inr kept) \<Rightarrow>
                  (here @ es, Inr (if costAsAvax h < g then h # kept else kept))))"

section \<open>The chain\<close>

text \<open>
  Every remote call is answered by the environment. The calls of one cycle happen at
  different moments and the stages issue them concurrently, so an answer may depend on
  the contract, on the position of the item the call is made for, and, where the code
  calls the same method twice for one item, on which of the two calls it is.
  The first argument of an answer is that position. For the fee accessor the second
  argument tells the two calls apart: 0 is the call whose result becomes
  \<open>treasuryFee\<close>, 1 the call whose result becomes \<open>treasuryMax\<close>.
  Unsigned results are given decoded (\<open>toBN\<close> of a decimal string is exact).
  The timing of the answers is the environment's too: when several calls of one stage
  are rejected, \<open>first_rejected\<close> says which rejection came first, as a position
  in the list of the rejections taken in the order of the records.
\<close>

record chain =
  call_globes :: "nat \<Rightarrow> contract \<Rightarrow> address \<Rightarrow> error + address"
  call_strategies :: "nat \<Rightarrow> contract \<Rightarrow> address \<Rightarrow> error + address"
  call_getHarvestable :: "nat \<Rightarrow> contract \<Rightarrow> error + nat"
  call_performanceTreasuryFee :: "nat \<Rightarrow> nat \<Rightarrow> contract \<Rightarrow> error + nat"
  call_getReserves :: "nat \<Rightarrow> contract \<Rightarrow> error + nat \<times> nat"
  call_estimateGas :: "nat \<Rightarrow> tx_intent \<Rightarrow> address \<Rightarrow> error + nat"
  call_getGasPrice :: "nat \<Rightarrow> error + nat"
  call_getTransactionCount :: "address \<Rightarrow> error + nat"
  call_send :: "nat \<Rightarrow> tx_intent \<Rightarrow> send_opts \<Rightarrow> error + receipt"
  first_rejected :: "error list \<Rightarrow> nat"

subsection \<open>Promise combinators\<close>

text \<open>\<open>array.map(callback)\<close> with a callback that takes the element and its index.\<close>

definition map_indexed :: "('a \<Rightarrow> nat \<Rightarrow> 'b) \<Rightarrow> 'a list \<Rightarrow> 'b list" where
  "map_indexed f xs = map (\<lambda>(i, x). f x i) (enumerate 0 xs)"

text \<open>
  \<open>Promise.all\<close> fulfils with all values, in order, when every promise fulfils, and
  rejects with the reason of the promise that is rejected first in time. Which one that
  is depends on the timing, so it is chosen by the parameter \<open>first\<close> among the
  rejections (a choice outside the list falls back on the rejection of lowest index).
\<close>

fun rejections :: "(error + 'a) list \<Rightarrow> error list" where
  "rejections [] = []"
| "rejections (Inl e # ps) = e # rejections ps"
| "rejections (Inr v # ps) = rejections ps"

fun fulfilments :: "(error + 'a) list \<Rightarrow> 'a list" where
  "fulfilments [] = []"
| "fulfilments (Inl e # ps) = fulfilments ps"
| "fulfilments (Inr v # ps) = v # fulfilments ps"

definition promise_all :: "(error list \<Rightarrow> nat) \<Rightarrow> (error + 'a) list \<Rightarrow> error + 'a list" where
  "promise_all first ps =
     (case rejections ps of
        [] \<Rightarrow> Inr (fulfilments ps)
      | e # es \<Rightarrow>
          Inl (if first (e # es) < length (e # es) then (e # es) ! first (e # es) else e))"

text \<open>\<open>Promise.allSettled\<close> never rejects: one settled result per promise.\<close>

datatype 'a settled = Fulfilled 'a | Rejected error

fun settle :: "error + 'a \<Rightarrow> 'a settled" where
  "settle (Inl e) = Rejected e"
| "settle (Inr v) = Fulfilled v"

definition promise_allSettled :: "(error + 'a) list \<Rightarrow> 'a settled list" where
  "promise_allSettled ps = map settle ps"

text \<open>\<open>p.then(f)\<close> and \<open>p.catch(h)\<close> on outcomes.\<close>

definition promise_then :: "'a outcome \<Rightarrow> ('a \<Rightarrow> 'b outcome) \<Rightarrow> 'b outcome" where
  "promise_then p f =
     (case p of
        (es, Inl e) \<Rightarrow> (es, Inl e)
      | (es, Inr v) \<Rightarrow> (case f v of (es', r) \<Rightarrow> (es @ es', r)))"

definition promise_catch :: "'a outcome \<Rightarrow> (error \<Rightarrow> effect list) \<Rightarrow> effect list" where
  "promise_catch p h = (case p of (es, Inl e) \<Rightarrow> es @ h e | (es, Inr v) \<Rightarrow> es)"

text \<open>The handler every stage installs: log the stage's message, throw the error again.\<close>

definition catch_rethrow :: "line \<Rightarrow> error + 'a \<Rightarrow> 'a outcome" where
  "catch_rethrow msg r = (case r of Inl err \<Rightarrow> ([Err msg], Inl err) | Inr v \<Rightarrow> ([], Inr v))"

section \<open>Strategy discovery\<close>

record target =
  globes :: "contract list"
  strategies :: "contract list"

text \<open>
  \<open>web3.utils.isAddress\<close> belongs to the web3 library and is a parameter. The loop
  awaits the two registry reads of one asset before it goes on to the next; a rejected
  read rejects \<open>initContracts\<close>.
\<close>

fun initContracts_loop ::
  "(address \<Rightarrow> bool) \<Rightarrow> chain \<Rightarrow> contract \<Rightarrow> target list \<Rightarrow> nat \<Rightarrow> address list
     \<Rightarrow> error + target list" where
  "initContracts_loop isAddress ch controllerContract contractCache i [] = Inr contractCache"
| "initContracts_loop isAddress ch controllerContract contractCache i (wantAddress # rest) =
     (case call_globes ch i controllerContract wantAddress of
        Inl e \<Rightarrow> Inl e
      | Inr globe \<Rightarrow>
     (case call_strategies ch i controllerContract wantAddress of
        Inl e \<Rightarrow> Inl e
      | Inr strat \<Rightarrow>
          (let snowglobeAddresses = [globe]; strategyAddresses = [strat] in
           if list_ex (\<lambda>a. \<not> isAddress a) snowglobeAddresses
              \<or> list_ex (\<lambda>a. \<not> isAddress a) strategyAddresses
           then initContracts_loop isAddress ch controllerContract contractCache (Suc i) rest
           else initContracts_loop isAddress ch controllerContract
                  (contractCache @
                     [\<lparr>globes = map (Contract ABI_SNOWGLOBE) snowglobeAddresses,
                       strategies = map (Contract ABI_STRATEGY) strategyAddresses\<rparr>])
                  (Suc i) rest)))"

definition initContracts ::
  "(address \<Rightarrow> bool) \<Rightarrow> config \<Rightarrow> chain \<Rightarrow> address list \<Rightarrow> error + target list" where
  "initContracts isAddress cfg ch wantsAddresses =
     initContracts_loop isAddress ch (Contract ABI_CONTROLLER (CONTROLLER cfg)) [] 0
       wantsAddresses"

section \<open>The evaluation stages\<close>

text \<open>\<open>String.prototype.toLowerCase\<close> on the ASCII letters of an address.\<close>

definition lower_char :: "char \<Rightarrow> char" where
  "lower_char c =
     (if 65 \<le> (of_char c :: nat) \<and> (of_char c :: nat) \<le> 90
      then char_of ((of_char c :: nat) + 32) else c)"

definition toLowerCase :: "string \<Rightarrow> string" where
  "toLowerCase s = map lower_char s"

subsection \<open>Stage 1: candidate records\<close>

text \<open>
  The properties of the object literal are evaluated in order, each \<open>await\<close> in turn;
  the first rejected call rejects the record's promise. The fee accessor
  \<open>performanceTreasuryFee\<close> is called twice, once for each fee field.
\<close>

definition mapStrategyToHarvestable ::
  "config \<Rightarrow> chain \<Rightarrow> contract \<Rightarrow> nat \<Rightarrow> error + harvest" where
  "mapStrategyToHarvestable cfg ch strategyContract i =
     (case call_getHarvestable ch i strategyContract of
        Inl e \<Rightarrow> Inl e
      | Inr hv \<Rightarrow>
     (case call_performanceTreasuryFee ch i 0 strategyContract of
        Inl e \<Rightarrow> Inl e
      | Inr fee \<Rightarrow>
     (case call_performanceTreasuryFee ch i 1 strategyContract of
        Inl e \<Rightarrow> Inl e
      | Inr mx \<Rightarrow>
          Inr \<lparr>strategy = strategyContract,
               name = STRATEGY_NAME cfg (toLowerCase (address_of strategyContract)),
               harvestable = hv,
               treasuryFee = fee,
               treasuryMax = mx\<rparr>)))"

definition strategyContracts :: "target list \<Rightarrow> contract list" where
  "strategyContracts contracts =
     foldl (\<lambda>output strats. output @ strats) [] (map strategies contracts)"

definition createHarvests :: "config \<Rightarrow> chain \<Rightarrow> target list \<Rightarrow> harvest list outcome" where
  "createHarvests cfg ch contracts =
     catch_rethrow ErrorFetchingInformation
       (promise_all (first_rejected ch)
          (map_indexed (mapStrategyToHarvestable cfg ch) (strategyContracts contracts)))"

subsection \<open>Stage 2: the pending transaction\<close>

text \<open>
  Building the call object reads nothing from the chain; the index goes unused. No item
  is rejected, so \<open>Promise.all\<close> has no rejection to choose.
\<close>

definition addHarvestTx_item :: "harvest \<Rightarrow> nat \<Rightarrow> error + harvest_tx" where
  "addHarvestTx_item h i = Inr (harvest.extend h (harvest_tx.fields (HarvestCall (strategy h))))"

definition addHarvestTx :: "harvest list \<Rightarrow> harvest_tx list outcome" where
  "addHarvestTx harvests =
     catch_rethrow ErrorAddingHarvestTx
       (promise_all (\<lambda>es. 0) (map_indexed addHarvestTx_item harvests))"

subsection \<open>Stage 3: the gain in two reference tokens\<close>

text \<open>
  Modelled from the spec: \<open>Util.convertViaPool\<close>. The module \<open>Util\<close> is not part of
  the sources. The spec gives the conversion as
  \<open>quantity * reserveOut / reserveIn\<close> in truncating integer division, and a
  \<open>reserveIn\<close> of zero as a failure of the division-by-zero kind, never a silent zero.
\<close>

definition convertViaPool :: "nat \<Rightarrow> nat \<Rightarrow> nat \<Rightarrow> error + nat" where
  "convertViaPool quantity reserveIn reserveOut = bn_div (quantity * reserveOut) reserveIn"

definition PANGOLIN_PNG_WAVAX_POOL_ADDRESS :: address where
  "PANGOLIN_PNG_WAVAX_POOL_ADDRESS = ''0xd7538cabbf8605bde1f4901b47b8d42c61de0367''"

definition PANGOLIN_PNG_USDT_POOL_ADDRESS :: address where
  "PANGOLIN_PNG_USDT_POOL_ADDRESS = ''0xe8acf438b10a2c09f80aef3ef2858f8e758c98f9''"

text \<open>Both read the pool's reserves anew on every call; the index says for which record.\<close>

definition convertPNGToWavax :: "chain \<Rightarrow> nat \<Rightarrow> nat \<Rightarrow> error + nat" where
  "convertPNGToWavax ch i pngQuantity =
     (case call_getReserves ch i (Contract ABI_PANGOLIN_POOL PANGOLIN_PNG_WAVAX_POOL_ADDRESS) of
        Inl e \<Rightarrow> Inl e
      | Inr (reserve0, reserve1) \<Rightarrow>
          (let reserveIn = reserve0; reserveOut = reserve1
           in convertViaPool pngQuantity reserveIn reserveOut))"

definition convertPNGToUSDT :: "chain \<Rightarrow> nat \<Rightarrow> nat \<Rightarrow> error + nat" where
  "convertPNGToUSDT ch i pngQuantity =
     (case call_getReserves ch i (Contract ABI_PANGOLIN_POOL PANGOLIN_PNG_USDT_POOL_ADDRESS) of
        Inl e \<Rightarrow> Inl e
      | Inr (reserve0, reserve1) \<Rightarrow>
          (let reserveIn = reserve0; reserveOut = reserve1
           in convertViaPool pngQuantity reserveIn reserveOut))"

definition addHarvestGain_item :: "chain \<Rightarrow> harvest_tx \<Rightarrow> nat \<Rightarrow> error + harvest_gain" where
  "addHarvestGain_item ch h i =
     (case convertPNGToWavax ch i (harvestable h) of
        Inl e \<Rightarrow> Inl e
      | Inr wavax \<Rightarrow>
     (case convertPNGToUSDT ch i (harvestable h) of
        Inl e \<Rightarrow> Inl e
      | Inr usdt \<Rightarrow> Inr (harvest_tx.extend h (harvest_gain.fields wavax usdt))))"

definition addHarvestGain :: "chain \<Rightarrow> harvest_tx list \<Rightarrow> harvest_gain list outcome" where
  "addHarvestGain ch harvests =
     catch_rethrow ErrorAddingHarvestGain
       (promise_all (first_rejected ch) (map_indexed (addHarvestGain_item ch) harvests))"

subsection \<open>Stage 4: gas units and gas price\<close>

definition addHarvestGas_item ::
  "config \<Rightarrow> chain \<Rightarrow> harvest_gain \<Rightarrow> nat \<Rightarrow> error + harvest_gas" where
  "addHarvestGas_item cfg ch h i =
     (case call_estimateGas ch i (tx h) (WALLET_ADDRESS cfg) of
        Inl e \<Rightarrow> Inl e
      | Inr units \<Rightarrow>
     (case call_getGasPrice ch i of
        Inl e \<Rightarrow> Inl e
      | Inr price \<Rightarrow> Inr (harvest_gain.extend h (harvest_gas.fields units price))))"

definition addHarvestGas :: "config \<Rightarrow> chain \<Rightarrow> harvest_gain list \<Rightarrow> harvest_gas list outcome" where
  "addHarvestGas cfg ch harvests =
     catch_rethrow ErrorAddingHarvestGas
       (promise_all (first_rejected ch) (map_indexed (addHarvestGas_item cfg ch) harvests))"

section \<open>Execution and report\<close>

text \<open>
  \<open>executeHarvestTx\<close> runs up to its first \<open>await\<close> when \<open>map\<close> calls it, so the
  console line and the submission of record \<open>i\<close> come before those of record \<open>i + 1\<close>.
  In test mode the function returns what \<open>console.log\<close> returns, \<open>undefined\<close>; the
  fulfilled value is therefore optional.
\<close>

definition executeHarvestTx ::
  "config \<Rightarrow> chain \<Rightarrow> nat \<Rightarrow> harvest_gas \<Rightarrow> nat \<Rightarrow> effect list \<times> (error + receipt option)" where
  "executeHarvestTx cfg ch nonce0 h i =
     (if TEST_MODE cfg then ([Log (WouldHaveHarvested (address_of (strategy h)))], Inr None)
      else
        (let opts = \<lparr>sender = WALLET_ADDRESS cfg, send_gas = gas h,
                     send_gasPrice = gasPrice h, nonce = nonce0 + i\<rparr>
         in ([Log (HarvestingStrategy (address_of (strategy h))), Send (tx h) opts],
             map_sum id Some (call_send ch i (tx h) opts))))"

definition doHarvesting ::
  "config \<Rightarrow> chain \<Rightarrow> harvest_gas list
     \<Rightarrow> (receipt option settled list \<times> harvest_gas list) outcome" where
  "doHarvesting cfg ch harvests =
     (case call_getTransactionCount ch (WALLET_ADDRESS cfg) of
        Inl e \<Rightarrow> ([ReadTransactionCount (WALLET_ADDRESS cfg)], Inl e)
      | Inr nonce0 \<Rightarrow>
          (let started = map_indexed (executeHarvestTx cfg ch nonce0) harvests
           in (ReadTransactionCount (WALLET_ADDRESS cfg) # concat (map fst started),
               Inr (promise_allSettled (map snd started), harvests))))"

text \<open>
  The destructuring \<open>{reason, value}\<close> of a settled result: a rejected result has no
  \<open>value\<close>, a fulfilled one no \<open>reason\<close>. A receipt is an object and so truthy.
\<close>

fun value_of :: "receipt option settled \<Rightarrow> receipt option" where
  "value_of (Fulfilled v) = v"
| "value_of (Rejected e) = None"

fun reason_of :: "receipt option settled \<Rightarrow> error option" where
  "reason_of (Fulfilled v) = None"
| "reason_of (Rejected e) = Some e"

definition report :: "config \<Rightarrow> receipt option settled \<Rightarrow> harvest_gas \<Rightarrow> effect list" where
  "report cfg result h =
     (let reason = reason_of result; val = value_of result;
          shown = (case val of Some r \<Rightarrow> receipt_to r | None \<Rightarrow> address_of (strategy h))
      in if val \<noteq> None \<or> TEST_MODE cfg
         then [Log (if TEST_MODE cfg then SeparatorTestMode else Separator),
               Log (StrategyLine shown (name h)),
               Log (Reinvested (harvestable h) (gainUSDT h)),
               Log (TransactionLine (map_option transactionHash val))]
         else [Err (FailedToHarvest shown (name h)), Err (Reason reason)])"

text \<open>
  The loop over \<open>i < results.length\<close>; \<open>harvests[i]\<close> beyond the end of \<open>harvests\<close>
  is \<open>undefined\<close>, and reading its fields throws.
\<close>

fun logHarvestingResults_from ::
  "config \<Rightarrow> nat \<Rightarrow> receipt option settled list \<Rightarrow> harvest_gas list \<Rightarrow> unit outcome" where
  "logHarvestingResults_from cfg i [] harvests = ([], Inr ())"
| "logHarvestingResults_from cfg i (result # results) harvests =
     (if i < length harvests
      then (case logHarvestingResults_from cfg (Suc i) results harvests of
              (es, r) \<Rightarrow> (report cfg result (harvests ! i) @ es, r))
      else ([], Inl TypeError))"

definition logHarvestingResults ::
  "config \<Rightarrow> receipt option settled list \<times> harvest_gas list \<Rightarrow> unit outcome" where
  "logHarvestingResults cfg p = (case p of (results, harvests) \<Rightarrow>
     logHarvestingResults_from cfg 0 results harvests)"

section \<open>One cycle and the process around it\<close>

definition handleError :: "error \<Rightarrow> effect list" where
  "handleError err = [Err (Thrown err), SetTimeout 1000 (ProcessExit 1)]"

text \<open>The stages that build the records, then the whole promise chain of \<open>loop\<close>.\<close>

definition evaluate :: "config \<Rightarrow> chain \<Rightarrow> target list \<Rightarrow> harvest_gas list outcome" where
  "evaluate cfg ch contracts =
     promise_then (promise_then (promise_then
       (createHarvests cfg ch contracts)
       addHarvestTx)
       (addHarvestGain ch))
       (addHarvestGas cfg ch)"

definition pipeline :: "config \<Rightarrow> chain \<Rightarrow> target list \<Rightarrow> unit outcome" where
  "pipeline cfg ch contracts =
     promise_then (promise_then (promise_then
       (evaluate cfg ch contracts)
       filterHarvestByCostVsGain)
       (doHarvesting cfg ch))
       (logHarvestingResults cfg)"

definition loop :: "config \<Rightarrow> chain \<Rightarrow> target list \<Rightarrow> effect list" where
  "loop cfg ch contracts = promise_catch (pipeline cfg ch contracts) handleError"

subsection \<open>The event loop\<close>

text \<open>
  The script's top level: after \<open>initContracts\<close> it calls \<open>loop\<close> once and installs
  \<open>setInterval(loop, CONFIG.INTERVAL)\<close>. The process is a clock, the tasks waiting
  for their time, and the exit status once \<open>process.exit\<close> has run. A cycle started
  at one moment settles \<open>latency\<close> milliseconds later; its effects are booked at that
  moment, and a \<open>setTimeout\<close> among them is armed from there.
\<close>

datatype task = IntervalTick | CycleSettles "effect list" | Timeout timer_action

record process =
  clock :: nat
  pending :: "(nat \<times> task) list"
  exit_code :: "nat option"
  console :: "effect list"
  cycles :: nat

record world =
  cycle_chain :: "nat \<Rightarrow> chain"
  latency :: "nat \<Rightarrow> nat"

text \<open>The task that is due first; among tasks due together, the one armed first.\<close>

fun next_task :: "(nat \<times> 'a) list \<Rightarrow> ((nat \<times> 'a) \<times> (nat \<times> 'a) list) option" where
  "next_task [] = None"
| "next_task (x # xs) =
     (case next_task xs of
        None \<Rightarrow> Some (x, [])
      | Some (y, rest) \<Rightarrow> if fst x \<le> fst y then Some (x, xs) else Some (y, x # rest))"

fun timeouts_of :: "nat \<Rightarrow> effect list \<Rightarrow> (nat \<times> task) list" where
  "timeouts_of now [] = []"
| "timeouts_of now (SetTimeout ms a # es) = (now + ms, Timeout a) # timeouts_of now es"
| "timeouts_of now (e # es) = timeouts_of now es"

definition start_cycle :: "config \<Rightarrow> world \<Rightarrow> target list \<Rightarrow> process \<Rightarrow> process" where
  "start_cycle cfg w contracts s =
     s\<lparr>pending := pending s @
          [(clock s + latency w (cycles s),
            CycleSettles (loop cfg (cycle_chain w (cycles s)) contracts))],
       cycles := Suc (cycles s)\<rparr>"

definition step :: "config \<Rightarrow> world \<Rightarrow> target list \<Rightarrow> process \<Rightarrow> process" where
  "step cfg w contracts s =
     (if exit_code s \<noteq> None then s
      else case next_task (pending s) of
        None \<Rightarrow> s
      | Some ((t, k), rest) \<Rightarrow>
          (let s1 = s\<lparr>clock := max (clock s) t, pending := rest\<rparr> in
           case k of
             IntervalTick \<Rightarrow>
               start_cycle cfg w contracts
                 (s1\<lparr>pending := pending s1 @ [(clock s1 + INTERVAL cfg, IntervalTick)]\<rparr>)
           | CycleSettles es \<Rightarrow>
               s1\<lparr>console := console s1 @ es,
                  pending := pending s1 @ timeouts_of (clock s1) es\<rparr>
           | Timeout (ProcessExit c) \<Rightarrow> s1\<lparr>exit_code := Some c\<rparr>))"

fun run :: "nat \<Rightarrow> config \<Rightarrow> world \<Rightarrow> target list \<Rightarrow> process \<Rightarrow> process" where
  "run 0 cfg w contracts s = s"
| "run (Suc n) cfg w contracts s = run n cfg w contracts (step cfg w contracts s)"

definition boot :: "config \<Rightarrow> world \<Rightarrow> target list \<Rightarrow> process" where
  "boot cfg w contracts =
     (let s = start_cycle cfg w contracts
                \<lparr>clock = 0, pending = [], exit_code = None, console = [], cycles = 0\<rparr>
      in s\<lparr>pending := pending s @ [(INTERVAL cfg, IntervalTick)]\<rparr>)"

definition main ::
  "(address \<Rightarrow> bool) \<Rightarrow> config \<Rightarrow> chain \<Rightarrow> world \<Rightarrow> error + target list \<times> process" where
  "main isAddress cfg ch0 w =
     (case initContracts isAddress cfg ch0 (WANTS cfg) of
        Inl e \<Rightarrow> Inl e
      | Inr contracts \<Rightarrow> Inr (contracts, boot cfg w contracts))"

section \<open>Observations on effects\<close>

text \<open>What a list of effects holds: the submissions, the nonce reads, the error lines.\<close>

fun sends :: "effect list \<Rightarrow> (tx_intent \<times> send_opts) list" where
  "sends [] = []"
| "sends (Send t opts # es) = (t, opts) # sends es"
| "sends (e # es) = sends es"

fun transaction_count_reads :: "effect list \<Rightarrow> nat" where
  "transaction_count_reads [] = 0"
| "transaction_count_reads (ReadTransactionCount a # es) = Suc (transaction_count_reads es)"
| "transaction_count_reads (e # es) = transaction_count_reads es"

fun console_errors :: "effect list \<Rightarrow> line list" where
  "console_errors [] = []"
| "console_errors (Err l # es) = l # console_errors es"
| "console_errors (e # es) = console_errors es"

text \<open>The options record \<open>i\<close> is submitted with when the wallet's count was \<open>baseNonce\<close>.\<close>

definition submission :: "config \<Rightarrow> nat \<Rightarrow> harvest_gas \<Rightarrow> nat \<Rightarrow> send_opts" where
  "submission cfg baseNonce h i =
     \<lparr>sender = WALLET_ADDRESS cfg, send_gas = gas h, send_gasPrice = gasPrice h,
      nonce = baseNonce + i\<rparr>"

text \<open>The two summaries of the reporter, as the lines they consist of.\<close>

definition success_summary :: "config \<Rightarrow> receipt option \<Rightarrow> harvest_gas \<Rightarrow> effect list" where
  "success_summary cfg val h =
     [Log (if TEST_MODE cfg then SeparatorTestMode else Separator),
      Log (StrategyLine (case val of Some r \<Rightarrow> receipt_to r | None \<Rightarrow> address_of (strategy h))
             (name h)),
      Log (Reinvested (harvestable h) (gainUSDT h)),
      Log (TransactionLine (map_option transactionHash val))]"

definition failure_summary :: "error \<Rightarrow> harvest_gas \<Rightarrow> effect list" where
  "failure_summary e h =
     [Err (FailedToHarvest (address_of (strategy h)) (name h)), Err (Reason (Some e))]"

text \<open>The target discovery builds from one accepted pair of addresses.\<close>

definition target_of :: "address \<Rightarrow> address \<Rightarrow> target" where
  "target_of globe strat =
     \<lparr>globes = [Contract ABI_SNOWGLOBE globe], strategies = [Contract ABI_STRATEGY strat]\<rparr>"

text \<open>The first of the four evaluation stages that rejects, with its message and error.\<close>

definition failed_stage :: "config \<Rightarrow> chain \<Rightarrow> target list \<Rightarrow> (line \<times> error) option" where
  "failed_stage cfg ch contracts =
     (case snd (createHarvests cfg ch contracts) of
        Inl e \<Rightarrow> Some (ErrorFetchingInformation, e)
      | Inr hs1 \<Rightarrow>
     (case snd (addHarvestTx hs1) of
        Inl e \<Rightarrow> Some (ErrorAddingHarvestTx, e)
      | Inr hs2 \<Rightarrow>
     (case snd (addHarvestGain ch hs2) of
        Inl e \<Rightarrow> Some (ErrorAddingHarvestGain, e)
      | Inr hs3 \<Rightarrow>
     (case snd (addHarvestGas cfg ch hs3) of
        Inl e \<Rightarrow> Some (ErrorAddingHarvestGas, e)
      | Inr hs4 \<Rightarrow> None))))"

text \<open>
  One of the reads that the four stages make for the strategy at position \<open>i\<close> is
  rejected: the harvestable quantity, either fee read, the reserves of either pool, the
  gas estimate of the strategy's harvest call, or the gas price.
\<close>

definition rejected_fetch :: "config \<Rightarrow> chain \<Rightarrow> contract \<Rightarrow> nat \<Rightarrow> bool" where
  "rejected_fetch cfg ch c i =
     (isl (call_getHarvestable ch i c) \<or>
      isl (call_performanceTreasuryFee ch i 0 c) \<or>
      isl (call_performanceTreasuryFee ch i 1 c) \<or>
      isl (call_getReserves ch i (Contract ABI_PANGOLIN_POOL PANGOLIN_PNG_WAVAX_POOL_ADDRESS)) \<or>
      isl (call_getReserves ch i (Contract ABI_PANGOLIN_POOL PANGOLIN_PNG_USDT_POOL_ADDRESS)) \<or>
      isl (call_estimateGas ch i (HarvestCall c) (WALLET_ADDRESS cfg)) \<or>
      isl (call_getGasPrice ch i))"

section \<open>Concrete runs\<close>

definition example_cfg :: config where
  "example_cfg =
     \<lparr>TEST_MODE = False, WALLET_ADDRESS = ''0xwallet'', WANTS = [''0xwant0''],
      CONTROLLER = ''0xcontroller'', INTERVAL = 60000, STRATEGY_NAME = (\<lambda>a. None)\<rparr>"

definition test_cfg :: config where
  "test_cfg = example_cfg\<lparr>TEST_MODE := True\<rparr>"

definition example_isAddress :: "address \<Rightarrow> bool" where
  "example_isAddress a = (a \<noteq> [])"

definition example_receipt :: receipt where
  "example_receipt = \<lparr>receipt_to = ''0xstrategy'', transactionHash = ''0xhash''\<rparr>"

text \<open>A chain on which every read succeeds and the second submission of a batch fails.\<close>

definition steady_chain :: chain where
  "steady_chain =
     \<lparr>call_globes = (\<lambda>i c w. Inr ''0xglobe''),
      call_strategies = (\<lambda>i c w. Inr ''0xstrategy''),
      call_getHarvestable = (\<lambda>i c. Inr 1000),
      call_performanceTreasuryFee = (\<lambda>i k c. Inr 20),
      call_getReserves = (\<lambda>i c. Inr (100, 100)),
      call_estimateGas = (\<lambda>i t a. Inr 50),
      call_getGasPrice = (\<lambda>i. Inr 14),
      call_getTransactionCount = (\<lambda>a. Inr 7),
      call_send = (\<lambda>i t opts. if i = 1 then Inl (RpcError ''reverted'')
                               else Inr example_receipt),
      first_rejected = (\<lambda>es. 0)\<rparr>"

definition example_targets :: "target list" where
  "example_targets = [target_of ''0xglobe'' ''0xstrategy'']"

definition example_strategy :: contract where
  "example_strategy = Contract ABI_STRATEGY ''0xstrategy''"

text \<open>
  The record of the spec's example: a gain of 1000 with a fee of 20 in 100 is a treasury
  gain of 200; 50 gas units at the given price are the cost.
\<close>

definition example_record :: "nat \<Rightarrow> harvest_gas" where
  "example_record price =
     \<lparr>strategy = example_strategy, name = None, harvestable = 1000, treasuryFee = 20,
      treasuryMax = 100, tx = HarvestCall example_strategy, gainWAVAX = 1000,
      gainUSDT = 5, gas = 50, gasPrice = price\<rparr>"

text \<open>The registry answers with an empty strategy address for the second asset.\<close>

definition registry_chain :: chain where
  "registry_chain =
     steady_chain\<lparr>call_strategies := (\<lambda>i c w. if i = 1 then Inr [] else Inr ''0xstrategy'')\<rparr>"

text \<open>The fee accessor answers 20 to the first call and 30 to the second.\<close>

definition drifting_chain :: chain where
  "drifting_chain =
     steady_chain\<lparr>call_performanceTreasuryFee := (\<lambda>i k c. if k = 0 then Inr 20 else Inr 30)\<rparr>"

definition drifted_record :: harvest_gas where
  "drifted_record =
     \<lparr>strategy = example_strategy, name = None, harvestable = 1000,
      treasuryFee = 20, treasuryMax = 30, tx = HarvestCall example_strategy,
      gainWAVAX = 1000, gainUSDT = 1000, gas = 50, gasPrice = 14\<rparr>"

definition steady_record :: harvest_gas where
  "steady_record = drifted_record\<lparr>treasuryMax := 20\<rparr>"

text \<open>
  Two strategies; the fee accessor answers 0 for the second one, so that its record has
  a denominator of zero.
\<close>

definition two_targets :: "target list" where
  "two_targets = [target_of ''0xglobe'' ''0xstrategy'', target_of ''0xglobe'' ''0xstrategy'']"

definition zero_fee_chain :: chain where
  "zero_fee_chain =
     steady_chain\<lparr>call_performanceTreasuryFee := (\<lambda>i k c. if i = 1 then Inr 0 else Inr 20)\<rparr>"

definition zero_record :: harvest_gas where
  "zero_record = steady_record\<lparr>treasuryFee := 0, treasuryMax := 0\<rparr>"

text \<open>Every gas estimate is rejected.\<close>

definition gasless_chain :: chain where
  "gasless_chain = steady_chain\<lparr>call_estimateGas := (\<lambda>i t a. Inl (RpcError ''timeout''))\<rparr>"

text \<open>
  The read of the harvestable quantity is rejected, and so are the reads of the reserves
  and the gas estimate made for the second record of a stage.
\<close>

definition failing_chain :: chain where
  "failing_chain =
     steady_chain\<lparr>call_getHarvestable := (\<lambda>i c. Inl (RpcError ''timeout'')),
                  call_getReserves :=
                    (\<lambda>i c. if i = 1 then Inl (RpcError ''timeout'') else Inr (100, 100)),
                  call_estimateGas :=
                    (\<lambda>i t a. if i = 1 then Inl (RpcError ''timeout'') else Inr 50)\<rparr>"

definition failing_world :: world where
  "failing_world = \<lparr>cycle_chain = (\<lambda>k. failing_chain), latency = (\<lambda>k. 250)\<rparr>"

section \<open>Lemmas on the combinators\<close>

lemma map_indexed_conv: "map_indexed f xs = map (\<lambda>i. f (xs ! i) i) [0..<length xs]"
  unfolding map_indexed_def enumerate_eq_zip
  by (rule nth_equalityI) auto

lemma length_map_indexed [simp]: "length (map_indexed f xs) = length xs"
  by (simp add: map_indexed_conv)

lemma nth_map_indexed [simp]: "i < length xs \<Longrightarrow> map_indexed f xs ! i = f (xs ! i) i"
  by (simp add: map_indexed_conv)

lemma rejections_Nil: "rejections ps = [] \<longleftrightarrow> ps = map Inr (fulfilments ps)"
  by (induction ps rule: rejections.induct) auto

lemma rejections_Nil_iff: "rejections ps = [] \<longleftrightarrow> (\<forall>p\<in>set ps. \<not> isl p)"
  by (induction ps rule: rejections.induct) auto

text \<open>Of two rejections the one chosen as first in time is reported.\<close>

lemma promise_all_reports_chosen:
  "promise_all (\<lambda>es. 1) [Inl (RpcError ''a''), Inr v, Inl (RpcError ''b'')] = Inl (RpcError ''b'')"
  "promise_all (\<lambda>es. 0) [Inl (RpcError ''a''), Inr v, Inl (RpcError ''b'')] = Inl (RpcError ''a'')"
  by (simp_all add: promise_all_def)

lemma promise_all_Inr: "promise_all first ps = Inr vs \<Longrightarrow> ps = map Inr vs"
  using rejections_Nil [of ps] by (auto simp: promise_all_def split: list.splits)

lemma promise_all_Inl: "(\<exists>e. promise_all first ps = Inl e) \<longleftrightarrow> (\<exists>p\<in>set ps. isl p)"
  using rejections_Nil_iff [of ps] by (auto simp: promise_all_def split: list.splits)

lemma catch_rethrow_Inr: "catch_rethrow msg r = (es, Inr vs) \<longleftrightarrow> es = [] \<and> r = Inr vs"
  by (auto simp: catch_rethrow_def split: sum.splits)

lemma catch_rethrow_cases:
  "(\<exists>vs. catch_rethrow msg r = ([], Inr vs)) \<or> (\<exists>e. catch_rethrow msg r = ([Err msg], Inl e))"
  by (cases r) (simp_all add: catch_rethrow_def)

lemma stage_items:
  assumes "promise_all first (map_indexed f hs) = Inr hs'"
  shows "length hs' = length hs \<and> (\<forall>i<length hs. f (hs ! i) i = Inr (hs' ! i))"
proof -
  from promise_all_Inr [OF assms] have eq: "map_indexed f hs = map Inr hs'" .
  then have len: "length hs' = length hs"
    by (metis length_map length_map_indexed)
  moreover have "f (hs ! i) i = Inr (hs' ! i)" if "i < length hs" for i
    using that len arg_cong [OF eq, of "\<lambda>xs. xs ! i"] by simp
  ultimately show ?thesis by simp
qed

lemma stage_outcome:
  assumes "catch_rethrow msg (promise_all first (map_indexed f hs)) = (es, Inr hs')"
  shows "es = [] \<and> length hs' = length hs \<and> (\<forall>i<length hs. f (hs ! i) i = Inr (hs' ! i))"
  using assms stage_items [of first f hs hs'] by (simp add: catch_rethrow_Inr)

lemma stage_abort:
  assumes "i < length hs" and "isl (f (hs ! i) i)"
  shows "\<exists>e. catch_rethrow msg (promise_all first (map_indexed f hs)) = ([Err msg], Inl e)"
proof -
  from assms have "\<exists>p\<in>set (map_indexed f hs). isl p"
    by (metis length_map_indexed nth_map_indexed nth_mem)
  then obtain e where "promise_all first (map_indexed f hs) = Inl e"
    using promise_all_Inl by blast
  then show ?thesis by (simp add: catch_rethrow_def)
qed

lemma stage_cases:
  "(\<exists>vs. createHarvests cfg ch contracts = ([], Inr vs)) \<or>
   (\<exists>e. createHarvests cfg ch contracts = ([Err ErrorFetchingInformation], Inl e))"
  "(\<exists>vs. addHarvestTx hs1 = ([], Inr vs)) \<or>
   (\<exists>e. addHarvestTx hs1 = ([Err ErrorAddingHarvestTx], Inl e))"
  "(\<exists>vs. addHarvestGain ch hs2 = ([], Inr vs)) \<or>
   (\<exists>e. addHarvestGain ch hs2 = ([Err ErrorAddingHarvestGain], Inl e))"
  "(\<exists>vs. addHarvestGas cfg ch hs3 = ([], Inr vs)) \<or>
   (\<exists>e. addHarvestGas cfg ch hs3 = ([Err ErrorAddingHarvestGas], Inl e))"
  unfolding createHarvests_def addHarvestTx_def addHarvestGain_def addHarvestGas_def
  by (rule catch_rethrow_cases)+

text \<open>The definitions a concrete run of the evaluation stages unfolds.\<close>

lemmas stage_defs =
  evaluate_def promise_then_def createHarvests_def addHarvestTx_def addHarvestGain_def
  addHarvestGas_def catch_rethrow_def promise_all_def map_indexed_def enumerate_eq_zip
  strategyContracts_def
  mapStrategyToHarvestable_def addHarvestTx_item_def addHarvestGain_item_def
  addHarvestGas_item_def convertPNGToWavax_def convertPNGToUSDT_def convertViaPool_def
  bn_div_def harvest.defs harvest_tx.defs harvest_gain.defs harvest_gas.defs target_of_def

lemmas example_defs =
  example_cfg_def test_cfg_def example_targets_def example_strategy_def steady_chain_def
  example_record_def example_receipt_def

section \<open>The profitability filter\<close>

lemma filter_outcome:
  "\<forall>h\<in>set hs. treasuryMax h \<noteq> 0 \<Longrightarrow>
   snd (filterHarvestByCostVsGain hs) =
     Inr (filter (\<lambda>h. gas h * gasPrice h < gainWAVAX h * treasuryFee h div treasuryMax h) hs)"
  by (induction hs)
     (auto simp: treasuryGainAsAvax_def bn_div_def costAsAvax_def split: prod.splits sum.splits)

text \<open>A record with a fee denominator of zero makes the whole filter throw.\<close>

lemma filter_zero_denominator:
  "\<exists>h\<in>set hs. treasuryMax h = 0 \<Longrightarrow> snd (filterHarvestByCostVsGain hs) = Inl DivisionByZero"
  by (induction hs)
     (fastforce simp: treasuryGainAsAvax_def bn_div_def case_prod_beta split: sum.splits)+

text \<open>
  Claim C1, as stated, fails: it has no condition on the denominators. With two
  strategies, the second answering 0 to the fee accessor, the stages deliver a first
  record whose cost of 700 is below its treasury gain of 1000 and a second record with
  a denominator of zero. \<open>BN.div\<close> throws on the second, the filter fails as a
  whole, and the first record is not kept.
\<close>

theorem zero_denominator_fails_filter:
  "snd (evaluate example_cfg zero_fee_chain two_targets) = Inr [steady_record, zero_record] \<and>
   treasuryMax steady_record \<noteq> 0 \<and>
   treasuryGainAsAvax steady_record = Inr 1000 \<and>
   costAsAvax steady_record = 700 \<and>
   treasuryMax zero_record = 0 \<and>
   snd (filterHarvestByCostVsGain [steady_record, zero_record]) = Inl DivisionByZero \<and>
   snd (pipeline example_cfg zero_fee_chain two_targets) = Inl DivisionByZero"
proof -
  have ev: "evaluate example_cfg zero_fee_chain two_targets
      = ([], Inr [steady_record, zero_record])"
    by (simp add: stage_defs example_defs two_targets_def zero_fee_chain_def zero_record_def
        steady_record_def drifted_record_def)
  have fl: "snd (filterHarvestByCostVsGain [steady_record, zero_record]) = Inl DivisionByZero"
    by (simp add: zero_record_def steady_record_def drifted_record_def treasuryGainAsAvax_def
        bn_div_def)
  have "snd (pipeline example_cfg zero_fee_chain two_targets) = Inl DivisionByZero"
    using fl by (simp add: pipeline_def ev promise_then_def case_prod_beta split: sum.splits)
  with ev fl show ?thesis
    by (simp add: zero_record_def steady_record_def drifted_record_def treasuryGainAsAvax_def
        bn_div_def costAsAvax_def)
qed

text \<open>
  Claim C1, amended. On a batch in which every record has a fee denominator other than
  zero, the filter computes the cost as \<open>gas * gasPrice\<close> and the treasury gain
  as \<open>gainWAVAX * treasuryFee div treasuryMax\<close> and keeps, in order, exactly the
  records whose cost is strictly below the gain; a record that breaks even is dropped.
\<close>

theorem filter_keeps_iff_cost_below_gain:
  assumes "\<forall>h\<in>set hs. treasuryMax h \<noteq> 0"
  shows "\<exists>kept. snd (filterHarvestByCostVsGain hs) = Inr kept \<and>
           kept = filter (\<lambda>h. costAsAvax h < gainWAVAX h * treasuryFee h div treasuryMax h) hs \<and>
           (\<forall>h\<in>set hs. costAsAvax h = gas h * gasPrice h \<and>
              treasuryGainAsAvax h = Inr (gainWAVAX h * treasuryFee h div treasuryMax h)) \<and>
           (\<forall>h. h \<in> set kept \<longleftrightarrow>
              h \<in> set hs \<and> gas h * gasPrice h < gainWAVAX h * treasuryFee h div treasuryMax h) \<and>
           (\<forall>h\<in>set hs. gas h * gasPrice h = gainWAVAX h * treasuryFee h div treasuryMax h
              \<longrightarrow> h \<notin> set kept)"
  using filter_outcome [OF assms] assms
  by (auto simp: costAsAvax_def treasuryGainAsAvax_def bn_div_def)

theorem filter_keeps_iff_cost_below_gain_witness:
  "treasuryMax (example_record 3) \<noteq> 0 \<and> treasuryMax (example_record 4) \<noteq> 0 \<and>
   costAsAvax (example_record 3) = 150 \<and> costAsAvax (example_record 4) = 200 \<and>
   treasuryGainAsAvax (example_record 4) = Inr 200 \<and>
   snd (filterHarvestByCostVsGain [example_record 3, example_record 4]) = Inr [example_record 3]"
  using filter_keeps_iff_cost_below_gain [of "[example_record 3, example_record 4]"]
  by (simp add: example_record_def costAsAvax_def treasuryGainAsAvax_def bn_div_def)

section \<open>Pool conversion\<close>

text \<open>
  Claim C4. With a non-zero \<open>reserveIn\<close> the conversion returns
  \<open>quantity * reserveOut div reserveIn\<close>, the floor of the quotient, and 0 for a
  quantity of 0; with \<open>reserveIn = 0\<close> it fails with the division error; it is not
  symmetric in the reserves; and both call sites pass \<open>reserve0\<close> as \<open>reserveIn\<close> and
  \<open>reserve1\<close> as \<open>reserveOut\<close>.
\<close>

theorem pool_conversion:
  "(reserveIn \<noteq> 0 \<longrightarrow>
      convertViaPool q reserveIn reserveOut = Inr (q * reserveOut div reserveIn) \<and>
      int (q * reserveOut div reserveIn) = \<lfloor>real (q * reserveOut) / real reserveIn\<rfloor> \<and>
      convertViaPool 0 reserveIn reserveOut = Inr 0) \<and>
   convertViaPool q 0 reserveOut = Inl DivisionByZero \<and>
   convertViaPool 1 1 2 \<noteq> convertViaPool 1 2 1 \<and>
   (call_getReserves ch i (Contract ABI_PANGOLIN_POOL PANGOLIN_PNG_WAVAX_POOL_ADDRESS)
      = Inr (reserve0, reserve1) \<longrightarrow>
    convertPNGToWavax ch i q = convertViaPool q reserve0 reserve1) \<and>
   (call_getReserves ch i (Contract ABI_PANGOLIN_POOL PANGOLIN_PNG_USDT_POOL_ADDRESS)
      = Inr (reserve0', reserve1') \<longrightarrow>
    convertPNGToUSDT ch i q = convertViaPool q reserve0' reserve1')"
  by (simp add: convertViaPool_def bn_div_def convertPNGToWavax_def convertPNGToUSDT_def
      floor_divide_of_nat_eq del: of_nat_mult)

theorem pool_conversion_witness:
  "convertViaPool 1000 300 100 = Inr 333 \<and>
   convertViaPool 0 300 100 = Inr 0 \<and>
   convertViaPool 1000 0 100 = Inl DivisionByZero \<and>
   convertPNGToWavax steady_chain 0 1000 = convertViaPool 1000 100 100 \<and>
   convertPNGToUSDT steady_chain 0 1000 = convertViaPool 1000 100 100"
  using pool_conversion [of 300 1000 100 steady_chain 0 100 100 100 100]
    pool_conversion [of 300 1000 100 steady_chain 0 100 100 100 100, THEN conjunct2]
  by (simp add: steady_chain_def)

section \<open>Strategy discovery\<close>

lemma initContracts_loop_accepts:
  "(\<forall>j<length ws. call_globes ch (i + j) ctrl (ws ! j) = Inr (g (i + j)) \<and>
                   call_strategies ch (i + j) ctrl (ws ! j) = Inr (s (i + j))) \<Longrightarrow>
   initContracts_loop isAddress ch ctrl cache i ws =
     Inr (cache @ map (\<lambda>k. target_of (g k) (s k))
                    (filter (\<lambda>k. isAddress (g k) \<and> isAddress (s k)) [i..<i + length ws]))"
proof (induction ws arbitrary: i cache)
  case Nil
  then show ?case by simp
next
  case (Cons w ws)
  from Cons.prems [rule_format, of 0]
  have here: "call_globes ch i ctrl w = Inr (g i)" "call_strategies ch i ctrl w = Inr (s i)"
    by simp_all
  have rest: "\<forall>j<length ws. call_globes ch (Suc i + j) ctrl (ws ! j) = Inr (g (Suc i + j)) \<and>
                 call_strategies ch (Suc i + j) ctrl (ws ! j) = Inr (s (Suc i + j))"
    using Cons.prems by (auto dest: spec [of _ "Suc j" for j])
  have range: "[i..<i + length (w # ws)] = i # [Suc i..<Suc i + length ws]"
    by (simp add: upt_conv_Cons del: upt_Suc)
  show ?case
    unfolding range using here Cons.IH [OF rest]
    by (simp add: target_of_def)
qed

text \<open>
  Claim C8. When the registry answers every read (asset \<open>i\<close> resolving to the vault
  address \<open>g i\<close> and the strategy address \<open>s i\<close>), discovery returns without error
  the targets of exactly the assets whose two addresses both pass \<open>isAddress\<close>, in
  the order of the input; the other assets are skipped.
\<close>

theorem discovery_skips_invalid_entries:
  assumes "\<forall>i<length wants.
             call_globes ch i (Contract ABI_CONTROLLER (CONTROLLER cfg)) (wants ! i) = Inr (g i) \<and>
             call_strategies ch i (Contract ABI_CONTROLLER (CONTROLLER cfg)) (wants ! i) = Inr (s i)"
  shows "initContracts isAddress cfg ch wants =
           Inr (map (\<lambda>i. target_of (g i) (s i))
                  (filter (\<lambda>i. isAddress (g i) \<and> isAddress (s i)) [0..<length wants]))"
  using initContracts_loop_accepts [of wants ch 0 _ g s isAddress "[]"] assms
  by (simp add: initContracts_def)

theorem discovery_skips_invalid_entries_witness:
  "initContracts example_isAddress example_cfg registry_chain [''0xwant0'', ''0xwant1'', ''0xwant2'']
     = Inr [target_of ''0xglobe'' ''0xstrategy'', target_of ''0xglobe'' ''0xstrategy'']"
proof -
  have reads: "\<forall>i<length [''0xwant0'', ''0xwant1'', ''0xwant2''].
      call_globes registry_chain i (Contract ABI_CONTROLLER (CONTROLLER example_cfg))
        ([''0xwant0'', ''0xwant1'', ''0xwant2''] ! i) = Inr ''0xglobe'' \<and>
      call_strategies registry_chain i (Contract ABI_CONTROLLER (CONTROLLER example_cfg))
        ([''0xwant0'', ''0xwant1'', ''0xwant2''] ! i)
        = Inr (if i = 1 then [] else ''0xstrategy'')"
    by (simp add: registry_chain_def steady_chain_def)
  have range: "[0..<length [''0xwant0'', ''0xwant1'', ''0xwant2'']] = [0, 1, 2]"
    by (simp add: upt_rec)
  show ?thesis
    using discovery_skips_invalid_entries [OF reads, of example_isAddress]
    unfolding range by (simp add: example_isAddress_def)
qed

section \<open>The evaluation stages\<close>

lemma addHarvestTx_item_frame:
  "addHarvestTx_item h i = Inr h' \<Longrightarrow> harvest.truncate h' = h"
  by (auto simp: addHarvestTx_item_def harvest.defs harvest_tx.defs)

lemma addHarvestGain_item_frame:
  "addHarvestGain_item ch h i = Inr h' \<Longrightarrow> harvest_tx.truncate h' = h"
  by (auto simp: addHarvestGain_item_def harvest_tx.defs harvest_gain.defs split: sum.splits)

lemma addHarvestGas_item_frame:
  "addHarvestGas_item cfg ch h i = Inr h' \<Longrightarrow> harvest_gain.truncate h' = h"
  by (auto simp: addHarvestGas_item_def harvest_gain.defs harvest_gas.defs split: sum.splits)

lemma addHarvestTx_frame:
  assumes "addHarvestTx hs = (es, Inr hs')"
  shows "length hs' = length hs \<and> map harvest.truncate hs' = hs"
proof -
  from assms have items: "length hs' = length hs"
      "\<forall>i<length hs. addHarvestTx_item (hs ! i) i = Inr (hs' ! i)"
    using stage_outcome [of ErrorAddingHarvestTx _ addHarvestTx_item hs es hs']
    by (simp_all add: addHarvestTx_def)
  then have "map harvest.truncate hs' = hs"
    by (intro nth_equalityI) (auto dest: addHarvestTx_item_frame)
  with items show ?thesis by simp
qed

lemma addHarvestGain_frame:
  assumes "addHarvestGain ch hs = (es, Inr hs')"
  shows "length hs' = length hs \<and> map harvest_tx.truncate hs' = hs"
proof -
  from assms have items: "length hs' = length hs"
      "\<forall>i<length hs. addHarvestGain_item ch (hs ! i) i = Inr (hs' ! i)"
    using stage_outcome [of ErrorAddingHarvestGain _ "addHarvestGain_item ch" hs es hs']
    by (simp_all add: addHarvestGain_def)
  then have "map harvest_tx.truncate hs' = hs"
    by (intro nth_equalityI) (auto dest: addHarvestGain_item_frame)
  with items show ?thesis by simp
qed

lemma addHarvestGas_frame:
  assumes "addHarvestGas cfg ch hs = (es, Inr hs')"
  shows "length hs' = length hs \<and> map harvest_gain.truncate hs' = hs"
proof -
  from assms have items: "length hs' = length hs"
      "\<forall>i<length hs. addHarvestGas_item cfg ch (hs ! i) i = Inr (hs' ! i)"
    using stage_outcome [of ErrorAddingHarvestGas _ "addHarvestGas_item cfg ch" hs es hs']
    by (simp_all add: addHarvestGas_def)
  then have "map harvest_gain.truncate hs' = hs"
    by (intro nth_equalityI) (auto dest: addHarvestGas_item_frame)
  with items show ?thesis by simp
qed

text \<open>A record cut back to the fields of an earlier stage has those fields unchanged.\<close>

lemma truncate_fields:
  "harvest.truncate h' = h \<Longrightarrow>
     strategy h' = strategy h \<and> name h' = name h \<and> harvestable h' = harvestable h \<and>
     treasuryFee h' = treasuryFee h \<and> treasuryMax h' = treasuryMax h"
  "harvest_tx.truncate g' = g \<Longrightarrow>
     strategy g' = strategy g \<and> name g' = name g \<and> harvestable g' = harvestable g \<and>
     treasuryFee g' = treasuryFee g \<and> treasuryMax g' = treasuryMax g \<and> tx g' = tx g"
  "harvest_gain.truncate k' = k \<Longrightarrow>
     strategy k' = strategy k \<and> name k' = name k \<and> harvestable k' = harvestable k \<and>
     treasuryFee k' = treasuryFee k \<and> treasuryMax k' = treasuryMax k \<and> tx k' = tx k \<and>
     gainWAVAX k' = gainWAVAX k \<and> gainUSDT k' = gainUSDT k"
  by (auto simp: harvest.defs harvest_tx.defs harvest_gain.defs)

text \<open>
  Claim C9. A stage that succeeds returns as many records as it was given, in the same
  order, and the record at each position is the input record at that position with the
  stage's new fields added: cut back to the input's fields it is the input record, so
  every earlier field keeps its value. The input list is a value and is not changed.
\<close>

theorem stages_preserve_earlier_fields:
  "(addHarvestTx hs1 = (es1, Inr hs1') \<longrightarrow>
      length hs1' = length hs1 \<and> map harvest.truncate hs1' = hs1 \<and>
      (\<forall>i<length hs1.
         strategy (hs1' ! i) = strategy (hs1 ! i) \<and> name (hs1' ! i) = name (hs1 ! i) \<and>
         harvestable (hs1' ! i) = harvestable (hs1 ! i) \<and>
         treasuryFee (hs1' ! i) = treasuryFee (hs1 ! i) \<and>
         treasuryMax (hs1' ! i) = treasuryMax (hs1 ! i))) \<and>
   (addHarvestGain ch hs2 = (es2, Inr hs2') \<longrightarrow>
      length hs2' = length hs2 \<and> map harvest_tx.truncate hs2' = hs2 \<and>
      (\<forall>i<length hs2.
         strategy (hs2' ! i) = strategy (hs2 ! i) \<and> name (hs2' ! i) = name (hs2 ! i) \<and>
         harvestable (hs2' ! i) = harvestable (hs2 ! i) \<and>
         treasuryFee (hs2' ! i) = treasuryFee (hs2 ! i) \<and>
         treasuryMax (hs2' ! i) = treasuryMax (hs2 ! i) \<and> tx (hs2' ! i) = tx (hs2 ! i))) \<and>
   (addHarvestGas cfg ch hs3 = (es3, Inr hs3') \<longrightarrow>
      length hs3' = length hs3 \<and> map harvest_gain.truncate hs3' = hs3 \<and>
      (\<forall>i<length hs3.
         strategy (hs3' ! i) = strategy (hs3 ! i) \<and> name (hs3' ! i) = name (hs3 ! i) \<and>
         harvestable (hs3' ! i) = harvestable (hs3 ! i) \<and>
         treasuryFee (hs3' ! i) = treasuryFee (hs3 ! i) \<and>
         treasuryMax (hs3' ! i) = treasuryMax (hs3 ! i) \<and> tx (hs3' ! i) = tx (hs3 ! i) \<and>
         gainWAVAX (hs3' ! i) = gainWAVAX (hs3 ! i) \<and> gainUSDT (hs3' ! i) = gainUSDT (hs3 ! i)))"
proof (intro conjI impI)
  assume a: "addHarvestTx hs1 = (es1, Inr hs1')"
  from addHarvestTx_frame [OF a] show "length hs1' = length hs1" "map harvest.truncate hs1' = hs1"
    by simp_all
  show "\<forall>i<length hs1.
         strategy (hs1' ! i) = strategy (hs1 ! i) \<and> name (hs1' ! i) = name (hs1 ! i) \<and>
         harvestable (hs1' ! i) = harvestable (hs1 ! i) \<and>
         treasuryFee (hs1' ! i) = treasuryFee (hs1 ! i) \<and>
         treasuryMax (hs1' ! i) = treasuryMax (hs1 ! i)"
  proof (intro allI impI)
    fix i assume "i < length hs1"
    with addHarvestTx_frame [OF a] have "harvest.truncate (hs1' ! i) = hs1 ! i"
      by (metis nth_map)
    then show "strategy (hs1' ! i) = strategy (hs1 ! i) \<and> name (hs1' ! i) = name (hs1 ! i) \<and>
         harvestable (hs1' ! i) = harvestable (hs1 ! i) \<and>
         treasuryFee (hs1' ! i) = treasuryFee (hs1 ! i) \<and>
         treasuryMax (hs1' ! i) = treasuryMax (hs1 ! i)"
      by (rule truncate_fields)
  qed
next
  assume a: "addHarvestGain ch hs2 = (es2, Inr hs2')"
  from addHarvestGain_frame [OF a]
  show "length hs2' = length hs2" "map harvest_tx.truncate hs2' = hs2"
    by simp_all
  show "\<forall>i<length hs2.
         strategy (hs2' ! i) = strategy (hs2 ! i) \<and> name (hs2' ! i) = name (hs2 ! i) \<and>
         harvestable (hs2' ! i) = harvestable (hs2 ! i) \<and>
         treasuryFee (hs2' ! i) = treasuryFee (hs2 ! i) \<and>
         treasuryMax (hs2' ! i) = treasuryMax (hs2 ! i) \<and> tx (hs2' ! i) = tx (hs2 ! i)"
  proof (intro allI impI)
    fix i assume "i < length hs2"
    with addHarvestGain_frame [OF a] have "harvest_tx.truncate (hs2' ! i) = hs2 ! i"
      by (metis nth_map)
    then show "strategy (hs2' ! i) = strategy (hs2 ! i) \<and> name (hs2' ! i) = name (hs2 ! i) \<and>
         harvestable (hs2' ! i) = harvestable (hs2 ! i) \<and>
         treasuryFee (hs2' ! i) = treasuryFee (hs2 ! i) \<and>
         treasuryMax (hs2' ! i) = treasuryMax (hs2 ! i) \<and> tx (hs2' ! i) = tx (hs2 ! i)"
      by (rule truncate_fields)
  qed
next
  assume a: "addHarvestGas cfg ch hs3 = (es3, Inr hs3')"
  from addHarvestGas_frame [OF a]
  show "length hs3' = length hs3" "map harvest_gain.truncate hs3' = hs3"
    by simp_all
  show "\<forall>i<length hs3.
         strategy (hs3' ! i) = strategy (hs3 ! i) \<and> name (hs3' ! i) = name (hs3 ! i) \<and>
         harvestable (hs3' ! i) = harvestable (hs3 ! i) \<and>
         treasuryFee (hs3' ! i) = treasuryFee (hs3 ! i) \<and>
         treasuryMax (hs3' ! i) = treasuryMax (hs3 ! i) \<and> tx (hs3' ! i) = tx (hs3 ! i) \<and>
         gainWAVAX (hs3' ! i) = gainWAVAX (hs3 ! i) \<and> gainUSDT (hs3' ! i) = gainUSDT (hs3 ! i)"
  proof (intro allI impI)
    fix i assume "i < length hs3"
    with addHarvestGas_frame [OF a] have "harvest_gain.truncate (hs3' ! i) = hs3 ! i"
      by (metis nth_map)
    then show "strategy (hs3' ! i) = strategy (hs3 ! i) \<and> name (hs3' ! i) = name (hs3 ! i) \<and>
         harvestable (hs3' ! i) = harvestable (hs3 ! i) \<and>
         treasuryFee (hs3' ! i) = treasuryFee (hs3 ! i) \<and>
         treasuryMax (hs3' ! i) = treasuryMax (hs3 ! i) \<and> tx (hs3' ! i) = tx (hs3 ! i) \<and>
         gainWAVAX (hs3' ! i) = gainWAVAX (hs3 ! i) \<and> gainUSDT (hs3' ! i) = gainUSDT (hs3 ! i)"
      by (rule truncate_fields)
  qed
qed

lemma steady_stages:
  "addHarvestTx [harvest.truncate steady_record] = ([], Inr [harvest_tx.truncate steady_record])"
  "addHarvestGain steady_chain [harvest_tx.truncate steady_record]
     = ([], Inr [harvest_gain.truncate steady_record])"
  "addHarvestGas example_cfg steady_chain [harvest_gain.truncate steady_record]
     = ([], Inr [steady_record])"
  by (simp_all add: stage_defs example_defs steady_record_def drifted_record_def
      PANGOLIN_PNG_WAVAX_POOL_ADDRESS_def PANGOLIN_PNG_USDT_POOL_ADDRESS_def)

theorem stages_preserve_earlier_fields_witness:
  "addHarvestTx [harvest.truncate steady_record] = ([], Inr [harvest_tx.truncate steady_record]) \<and>
   addHarvestGain steady_chain [harvest_tx.truncate steady_record]
     = ([], Inr [harvest_gain.truncate steady_record]) \<and>
   addHarvestGas example_cfg steady_chain [harvest_gain.truncate steady_record]
     = ([], Inr [steady_record]) \<and>
   map harvest.truncate [harvest_tx.truncate steady_record] = [harvest.truncate steady_record] \<and>
   map harvest_tx.truncate [harvest_gain.truncate steady_record]
     = [harvest_tx.truncate steady_record] \<and>
   map harvest_gain.truncate [steady_record] = [harvest_gain.truncate steady_record] \<and>
   treasuryFee steady_record = treasuryFee (harvest_gain.truncate steady_record)"
  using stages_preserve_earlier_fields
    [of "[harvest.truncate steady_record]" "[]" "[harvest_tx.truncate steady_record]"
        steady_chain "[harvest_tx.truncate steady_record]" "[]"
        "[harvest_gain.truncate steady_record]" example_cfg
        "[harvest_gain.truncate steady_record]" "[]" "[steady_record]"]
  by (simp add: steady_stages)

section \<open>Failure of an evaluation stage\<close>

lemma evaluate_failed:
  assumes "failed_stage cfg ch contracts = Some (msg, e)"
  shows "evaluate cfg ch contracts = ([Err msg], Inl e)"
proof -
  consider (a) e1 where "createHarvests cfg ch contracts = ([Err ErrorFetchingInformation], Inl e1)"
    | (b) hs1 where "createHarvests cfg ch contracts = ([], Inr hs1)"
    using stage_cases(1) by blast
  then show ?thesis
  proof cases
    case a
    with assms show ?thesis by (simp add: failed_stage_def evaluate_def promise_then_def)
  next
    case b
    consider (a2) e2 where "addHarvestTx hs1 = ([Err ErrorAddingHarvestTx], Inl e2)"
      | (b2) hs2 where "addHarvestTx hs1 = ([], Inr hs2)"
      using stage_cases(2) by blast
    then show ?thesis
    proof cases
      case a2
      with assms b show ?thesis by (simp add: failed_stage_def evaluate_def promise_then_def)
    next
      case b2
      consider (a3) e3 where "addHarvestGain ch hs2 = ([Err ErrorAddingHarvestGain], Inl e3)"
        | (b3) hs3 where "addHarvestGain ch hs2 = ([], Inr hs3)"
        using stage_cases(3) by blast
      then show ?thesis
      proof cases
        case a3
        with assms b b2 show ?thesis
          by (simp add: failed_stage_def evaluate_def promise_then_def)
      next
        case b3
        consider (a4) e4 where "addHarvestGas cfg ch hs3 = ([Err ErrorAddingHarvestGas], Inl e4)"
          | (b4) hs4 where "addHarvestGas cfg ch hs3 = ([], Inr hs4)"
          using stage_cases(4) by blast
        then show ?thesis
        proof cases
          case a4
          with assms b b2 b3 show ?thesis
            by (simp add: failed_stage_def evaluate_def promise_then_def)
        next
          case b4
          with assms b b2 b3 show ?thesis by (simp add: failed_stage_def)
        qed
      qed
    qed
  qed
qed

lemma loop_after_evaluate_failed:
  "evaluate cfg ch contracts = (es, Inl e) \<Longrightarrow> loop cfg ch contracts = es @ handleError e"
  by (simp add: loop_def pipeline_def promise_then_def promise_catch_def)

text \<open>An item that is fulfilled has had every one of its reads answered.\<close>

lemma created_fetches:
  "mapStrategyToHarvestable cfg ch c i = Inr h \<Longrightarrow>
   \<not> isl (call_getHarvestable ch i c) \<and> \<not> isl (call_performanceTreasuryFee ch i 0 c) \<and>
   \<not> isl (call_performanceTreasuryFee ch i 1 c) \<and> strategy h = c"
  by (auto simp: mapStrategyToHarvestable_def split: sum.splits)

lemma tx_attached: "addHarvestTx_item h i = Inr h' \<Longrightarrow> tx h' = HarvestCall (strategy h)"
  by (auto simp: addHarvestTx_item_def harvest.defs harvest_tx.defs)

lemma gain_fetches:
  "addHarvestGain_item ch h i = Inr h' \<Longrightarrow>
   \<not> isl (call_getReserves ch i (Contract ABI_PANGOLIN_POOL PANGOLIN_PNG_WAVAX_POOL_ADDRESS)) \<and>
   \<not> isl (call_getReserves ch i (Contract ABI_PANGOLIN_POOL PANGOLIN_PNG_USDT_POOL_ADDRESS))"
  by (auto simp: addHarvestGain_item_def convertPNGToWavax_def convertPNGToUSDT_def
      split: sum.splits)

lemma gas_fetches:
  "addHarvestGas_item cfg ch h i = Inr h' \<Longrightarrow>
   \<not> isl (call_estimateGas ch i (tx h) (WALLET_ADDRESS cfg)) \<and> \<not> isl (call_getGasPrice ch i)"
  by (auto simp: addHarvestGas_item_def split: sum.splits)

lemma not_isl_Inr: "\<not> isl x \<Longrightarrow> \<exists>v. x = Inr v"
  by (cases x) simp_all

lemma failed_stage_None:
  assumes "failed_stage cfg ch contracts = None"
  shows "\<exists>hs1 hs2 hs3 hs4.
           createHarvests cfg ch contracts = ([], Inr hs1) \<and>
           addHarvestTx hs1 = ([], Inr hs2) \<and>
           addHarvestGain ch hs2 = ([], Inr hs3) \<and>
           addHarvestGas cfg ch hs3 = ([], Inr hs4)"
proof -
  obtain hs1 where s1: "createHarvests cfg ch contracts = ([], Inr hs1)"
    using stage_cases(1) [of cfg ch contracts] assms
    by (auto simp: failed_stage_def)
  obtain hs2 where s2: "addHarvestTx hs1 = ([], Inr hs2)"
    using stage_cases(2) [of hs1] assms s1
    by (auto simp: failed_stage_def)
  obtain hs3 where s3: "addHarvestGain ch hs2 = ([], Inr hs3)"
    using stage_cases(3) [of ch hs2] assms s1 s2
    by (auto simp: failed_stage_def)
  obtain hs4 where s4: "addHarvestGas cfg ch hs3 = ([], Inr hs4)"
    using stage_cases(4) [of cfg ch hs3] assms s1 s2 s3
    by (auto simp: failed_stage_def)
  from s1 s2 s3 s4 show ?thesis by blast
qed

text \<open>When no stage rejects, no read made for any strategy was rejected.\<close>

lemma no_rejected_fetch:
  assumes "failed_stage cfg ch contracts = None"
    and "i < length (strategyContracts contracts)"
  shows "\<not> rejected_fetch cfg ch (strategyContracts contracts ! i) i"
proof -
  let ?sc = "strategyContracts contracts"
  from failed_stage_None [OF assms(1)] obtain hs1 hs2 hs3 hs4 where
    s1: "createHarvests cfg ch contracts = ([], Inr hs1)" and
    s2: "addHarvestTx hs1 = ([], Inr hs2)" and
    s3: "addHarvestGain ch hs2 = ([], Inr hs3)" and
    s4: "addHarvestGas cfg ch hs3 = ([], Inr hs4)"
    by blast
  from s1 have o1: "length hs1 = length ?sc"
      "\<forall>i<length ?sc. mapStrategyToHarvestable cfg ch (?sc ! i) i = Inr (hs1 ! i)"
    using stage_outcome [of ErrorFetchingInformation _ "mapStrategyToHarvestable cfg ch" ?sc
        "[]" hs1]
    by (simp_all add: createHarvests_def)
  from s2 have o2: "length hs2 = length hs1"
      "\<forall>i<length hs1. addHarvestTx_item (hs1 ! i) i = Inr (hs2 ! i)"
    using stage_outcome [of ErrorAddingHarvestTx _ addHarvestTx_item hs1 "[]" hs2]
    by (simp_all add: addHarvestTx_def)
  from s3 have o3: "length hs3 = length hs2"
      "\<forall>i<length hs2. addHarvestGain_item ch (hs2 ! i) i = Inr (hs3 ! i)"
    using stage_outcome [of ErrorAddingHarvestGain _ "addHarvestGain_item ch" hs2 "[]" hs3]
    by (simp_all add: addHarvestGain_def)
  from s4 have o4:
      "\<forall>i<length hs3. addHarvestGas_item cfg ch (hs3 ! i) i = Inr (hs4 ! i)"
    using stage_outcome [of ErrorAddingHarvestGas _ "addHarvestGas_item cfg ch" hs3 "[]" hs4]
    by (simp_all add: addHarvestGas_def)
  have i1: "mapStrategyToHarvestable cfg ch (?sc ! i) i = Inr (hs1 ! i)"
    using o1 assms(2) by simp
  have i2: "addHarvestTx_item (hs1 ! i) i = Inr (hs2 ! i)"
    using o1 o2 assms(2) by simp
  have i3: "addHarvestGain_item ch (hs2 ! i) i = Inr (hs3 ! i)"
    using o1 o2 o3 assms(2) by simp
  have i4: "addHarvestGas_item cfg ch (hs3 ! i) i = Inr (hs4 ! i)"
    using o1 o2 o3 o4 assms(2) by simp
  have "tx (hs3 ! i) = tx (hs2 ! i)"
    using truncate_fields(2) [OF addHarvestGain_item_frame [OF i3]] by simp
  also have "\<dots> = HarvestCall (strategy (hs1 ! i))"
    using i2 by (rule tx_attached)
  also have "strategy (hs1 ! i) = ?sc ! i"
    using created_fetches [OF i1] by simp
  finally have t: "tx (hs3 ! i) = HarvestCall (?sc ! i)" .
  show ?thesis
    using created_fetches [OF i1] gain_fetches [OF i3] gas_fetches [OF i4]
    unfolding rejected_fetch_def t by simp
qed

text \<open>
  Claim C6. A stage in which one read made for one record is rejected rejects as a
  whole, with the stage's message on the error console and no list of records. A cycle
  in which any read of the four evaluation stages is rejected for any strategy consists
  of one stage's message and the error handler: the filter and the executor do not run,
  and nothing is submitted.
\<close>

theorem fetch_failure_aborts_cycle:
  "((\<exists>i<length (strategyContracts contracts).
        isl (call_getHarvestable ch i (strategyContracts contracts ! i)) \<or>
        isl (call_performanceTreasuryFee ch i 0 (strategyContracts contracts ! i)) \<or>
        isl (call_performanceTreasuryFee ch i 1 (strategyContracts contracts ! i))) \<longrightarrow>
      (\<exists>e. createHarvests cfg ch contracts = ([Err ErrorFetchingInformation], Inl e))) \<and>
   ((\<exists>i<length hs2.
        isl (call_getReserves ch i (Contract ABI_PANGOLIN_POOL PANGOLIN_PNG_WAVAX_POOL_ADDRESS)) \<or>
        isl (call_getReserves ch i (Contract ABI_PANGOLIN_POOL PANGOLIN_PNG_USDT_POOL_ADDRESS)))
      \<longrightarrow> (\<exists>e. addHarvestGain ch hs2 = ([Err ErrorAddingHarvestGain], Inl e))) \<and>
   ((\<exists>i<length hs3.
        isl (call_estimateGas ch i (tx (hs3 ! i)) (WALLET_ADDRESS cfg)) \<or>
        isl (call_getGasPrice ch i)) \<longrightarrow>
      (\<exists>e. addHarvestGas cfg ch hs3 = ([Err ErrorAddingHarvestGas], Inl e))) \<and>
   ((\<exists>i<length (strategyContracts contracts).
        rejected_fetch cfg ch (strategyContracts contracts ! i) i) \<longrightarrow>
      (\<exists>msg e. failed_stage cfg ch contracts = Some (msg, e))) \<and>
   (failed_stage cfg ch contracts = Some (msg, e) \<longrightarrow>
      evaluate cfg ch contracts = ([Err msg], Inl e) \<and>
      loop cfg ch contracts = [Err msg, Err (Thrown e), SetTimeout 1000 (ProcessExit 1)] \<and>
      sends (loop cfg ch contracts) = [])"
proof (intro conjI impI)
  assume "\<exists>i<length (strategyContracts contracts).
        isl (call_getHarvestable ch i (strategyContracts contracts ! i)) \<or>
        isl (call_performanceTreasuryFee ch i 0 (strategyContracts contracts ! i)) \<or>
        isl (call_performanceTreasuryFee ch i 1 (strategyContracts contracts ! i))"
  then obtain i where i: "i < length (strategyContracts contracts)"
    and r: "isl (call_getHarvestable ch i (strategyContracts contracts ! i)) \<or>
        isl (call_performanceTreasuryFee ch i 0 (strategyContracts contracts ! i)) \<or>
        isl (call_performanceTreasuryFee ch i 1 (strategyContracts contracts ! i))"
    by blast
  have "isl (mapStrategyToHarvestable cfg ch (strategyContracts contracts ! i) i)"
  proof (rule ccontr)
    assume "\<not> isl (mapStrategyToHarvestable cfg ch (strategyContracts contracts ! i) i)"
    then obtain h where "mapStrategyToHarvestable cfg ch (strategyContracts contracts ! i) i = Inr h"
      by (auto dest: not_isl_Inr)
    from created_fetches [OF this] r show False by simp
  qed
  with i show "\<exists>e. createHarvests cfg ch contracts = ([Err ErrorFetchingInformation], Inl e)"
    unfolding createHarvests_def by (rule stage_abort)
next
  assume "\<exists>i<length hs2.
        isl (call_getReserves ch i (Contract ABI_PANGOLIN_POOL PANGOLIN_PNG_WAVAX_POOL_ADDRESS)) \<or>
        isl (call_getReserves ch i (Contract ABI_PANGOLIN_POOL PANGOLIN_PNG_USDT_POOL_ADDRESS))"
  then obtain i where i: "i < length hs2"
    and r: "isl (call_getReserves ch i (Contract ABI_PANGOLIN_POOL PANGOLIN_PNG_WAVAX_POOL_ADDRESS)) \<or>
        isl (call_getReserves ch i (Contract ABI_PANGOLIN_POOL PANGOLIN_PNG_USDT_POOL_ADDRESS))"
    by blast
  have "isl (addHarvestGain_item ch (hs2 ! i) i)"
  proof (rule ccontr)
    assume "\<not> isl (addHarvestGain_item ch (hs2 ! i) i)"
    then obtain h where "addHarvestGain_item ch (hs2 ! i) i = Inr h"
      by (auto dest: not_isl_Inr)
    from gain_fetches [OF this] r show False by simp
  qed
  with i show "\<exists>e. addHarvestGain ch hs2 = ([Err ErrorAddingHarvestGain], Inl e)"
    unfolding addHarvestGain_def by (rule stage_abort)
next
  assume "\<exists>i<length hs3.
        isl (call_estimateGas ch i (tx (hs3 ! i)) (WALLET_ADDRESS cfg)) \<or>
        isl (call_getGasPrice ch i)"
  then obtain i where i: "i < length hs3"
    and r: "isl (call_estimateGas ch i (tx (hs3 ! i)) (WALLET_ADDRESS cfg)) \<or>
        isl (call_getGasPrice ch i)"
    by blast
  have "isl (addHarvestGas_item cfg ch (hs3 ! i) i)"
  proof (rule ccontr)
    assume "\<not> isl (addHarvestGas_item cfg ch (hs3 ! i) i)"
    then obtain h where "addHarvestGas_item cfg ch (hs3 ! i) i = Inr h"
      by (auto dest: not_isl_Inr)
    from gas_fetches [OF this] r show False by simp
  qed
  with i show "\<exists>e. addHarvestGas cfg ch hs3 = ([Err ErrorAddingHarvestGas], Inl e)"
    unfolding addHarvestGas_def by (rule stage_abort)
next
  assume "\<exists>i<length (strategyContracts contracts).
        rejected_fetch cfg ch (strategyContracts contracts ! i) i"
  then have "failed_stage cfg ch contracts \<noteq> None"
    using no_rejected_fetch by blast
  then show "\<exists>msg e. failed_stage cfg ch contracts = Some (msg, e)"
    by auto
next
  assume failed: "failed_stage cfg ch contracts = Some (msg, e)"
  show ev: "evaluate cfg ch contracts = ([Err msg], Inl e)"
    using failed by (rule evaluate_failed)
  show lp: "loop cfg ch contracts = [Err msg, Err (Thrown e), SetTimeout 1000 (ProcessExit 1)]"
    using loop_after_evaluate_failed [OF ev] by (simp add: handleError_def)
  show "sends (loop cfg ch contracts) = []"
    unfolding lp by simp
qed

lemma failing_createHarvests:
  "createHarvests example_cfg failing_chain example_targets =
     ([Err ErrorFetchingInformation], Inl (RpcError ''timeout''))"
  by (simp add: stage_defs example_defs failing_chain_def)

lemma gasless_failed_stage:
  "failed_stage example_cfg gasless_chain example_targets
     = Some (ErrorAddingHarvestGas, RpcError ''timeout'')"
  by (simp add: failed_stage_def stage_defs example_defs gasless_chain_def)

theorem fetch_failure_aborts_cycle_witness:
  "isl (call_getHarvestable failing_chain 0 example_strategy) \<and>
   isl (call_getReserves failing_chain 1
          (Contract ABI_PANGOLIN_POOL PANGOLIN_PNG_WAVAX_POOL_ADDRESS)) \<and>
   isl (call_estimateGas failing_chain 1 (tx (harvest_gain.truncate steady_record))
          (WALLET_ADDRESS example_cfg)) \<and>
   (\<exists>e. createHarvests example_cfg failing_chain example_targets
         = ([Err ErrorFetchingInformation], Inl e)) \<and>
   (\<exists>e. addHarvestGain failing_chain
           [harvest_tx.truncate steady_record, harvest_tx.truncate steady_record]
         = ([Err ErrorAddingHarvestGain], Inl e)) \<and>
   (\<exists>e. addHarvestGas example_cfg failing_chain
           [harvest_gain.truncate steady_record, harvest_gain.truncate steady_record]
         = ([Err ErrorAddingHarvestGas], Inl e)) \<and>
   rejected_fetch example_cfg gasless_chain example_strategy 0 \<and>
   failed_stage example_cfg gasless_chain example_targets
     = Some (ErrorAddingHarvestGas, RpcError ''timeout'') \<and>
   loop example_cfg gasless_chain example_targets =
     [Err ErrorAddingHarvestGas, Err (Thrown (RpcError ''timeout'')),
      SetTimeout 1000 (ProcessExit 1)] \<and>
   sends (loop example_cfg gasless_chain example_targets) = []"
proof -
  let ?t = "harvest_tx.truncate steady_record" and ?g = "harvest_gain.truncate steady_record"
  note inst = fetch_failure_aborts_cycle
    [where cfg = example_cfg and ch = failing_chain and contracts = example_targets
       and ?hs2.0 = "[?t, ?t]" and ?hs3.0 = "[?g, ?g]"]
  note gasless = fetch_failure_aborts_cycle
    [where cfg = example_cfg and ch = gasless_chain and contracts = example_targets
       and msg = ErrorAddingHarvestGas and e = "RpcError ''timeout''"]
  have sc: "strategyContracts example_targets = [example_strategy]"
    by (simp add: strategyContracts_def example_targets_def target_of_def example_strategy_def)
  have h1: "isl (call_getHarvestable failing_chain 0 example_strategy)"
    by (simp add: failing_chain_def steady_chain_def)
  have h2: "isl (call_getReserves failing_chain 1
      (Contract ABI_PANGOLIN_POOL PANGOLIN_PNG_WAVAX_POOL_ADDRESS))"
    by (simp add: failing_chain_def steady_chain_def)
  have h3: "isl (call_estimateGas failing_chain 1 (tx ?g) (WALLET_ADDRESS example_cfg))"
    by (simp add: failing_chain_def steady_chain_def)
  have h4: "rejected_fetch example_cfg gasless_chain example_strategy 0"
    by (simp add: rejected_fetch_def gasless_chain_def steady_chain_def)
  have e1: "\<exists>i<length (strategyContracts example_targets).
      isl (call_getHarvestable failing_chain i (strategyContracts example_targets ! i)) \<or>
      isl (call_performanceTreasuryFee failing_chain i 0 (strategyContracts example_targets ! i)) \<or>
      isl (call_performanceTreasuryFee failing_chain i 1 (strategyContracts example_targets ! i))"
    using h1 unfolding sc by (intro exI [of _ 0]) simp
  have e2: "\<exists>i<length [?t, ?t].
      isl (call_getReserves failing_chain i
             (Contract ABI_PANGOLIN_POOL PANGOLIN_PNG_WAVAX_POOL_ADDRESS)) \<or>
      isl (call_getReserves failing_chain i
             (Contract ABI_PANGOLIN_POOL PANGOLIN_PNG_USDT_POOL_ADDRESS))"
    using h2 by (intro exI [of _ 1]) simp
  have e3: "\<exists>i<length [?g, ?g].
      isl (call_estimateGas failing_chain i (tx ([?g, ?g] ! i)) (WALLET_ADDRESS example_cfg)) \<or>
      isl (call_getGasPrice failing_chain i)"
    using h3 by (intro exI [of _ 1]) simp
  have e4: "\<exists>i<length (strategyContracts example_targets).
      rejected_fetch example_cfg gasless_chain (strategyContracts example_targets ! i) i"
    using h4 unfolding sc by (intro exI [of _ 0]) simp
  from inst e1 have c1: "\<exists>e. createHarvests example_cfg failing_chain example_targets
         = ([Err ErrorFetchingInformation], Inl e)"
    by blast
  from inst e2 have c2: "\<exists>e. addHarvestGain failing_chain [?t, ?t]
         = ([Err ErrorAddingHarvestGain], Inl e)"
    by blast
  from inst e3 have c3: "\<exists>e. addHarvestGas example_cfg failing_chain [?g, ?g]
         = ([Err ErrorAddingHarvestGas], Inl e)"
    by blast
  from gasless e4 have "\<exists>msg e. failed_stage example_cfg gasless_chain example_targets
      = Some (msg, e)"
    by blast
  note f = gasless_failed_stage
  from gasless f have c5: "loop example_cfg gasless_chain example_targets =
     [Err ErrorAddingHarvestGas, Err (Thrown (RpcError ''timeout'')),
      SetTimeout 1000 (ProcessExit 1)]"
    "sends (loop example_cfg gasless_chain example_targets) = []"
    by blast+
  from h1 h2 h3 h4 c1 c2 c3 f c5 show ?thesis by blast
qed

section \<open>The fee pair\<close>

text \<open>
  Claim C10, as stated, fails: the two fee fields come from two separate calls of
  \<open>performanceTreasuryFee\<close>. On a chain that answers 20 to the first and 30 to the
  second, the record has a numerator of 20 and a denominator of 30, its treasury gain
  is 666 and not its gain of 1000, and with a cost of 700 the filter drops a record
  that the test \<open>cost < gain\<close> would keep.
\<close>

lemma drifted_evaluate:
  "evaluate example_cfg drifting_chain example_targets = ([], Inr [drifted_record])"
  by (simp add: stage_defs example_defs drifting_chain_def drifted_record_def)

theorem fee_reads_can_differ:
  "snd (evaluate example_cfg drifting_chain example_targets) = Inr [drifted_record] \<and>
   treasuryFee drifted_record \<noteq> treasuryMax drifted_record \<and>
   treasuryMax drifted_record \<noteq> 0 \<and>
   treasuryGainAsAvax drifted_record \<noteq> Inr (gainWAVAX drifted_record) \<and>
   gas drifted_record * gasPrice drifted_record < gainWAVAX drifted_record \<and>
   snd (filterHarvestByCostVsGain [drifted_record]) = Inr []"
  by (simp add: drifted_evaluate)
     (simp add: drifted_record_def treasuryGainAsAvax_def bn_div_def costAsAvax_def)

lemma evaluate_Inr:
  assumes "snd (evaluate cfg ch contracts) = Inr hs4"
  shows "\<exists>hs1 hs2 hs3.
           createHarvests cfg ch contracts = ([], Inr hs1) \<and>
           addHarvestTx hs1 = ([], Inr hs2) \<and>
           addHarvestGain ch hs2 = ([], Inr hs3) \<and>
           addHarvestGas cfg ch hs3 = ([], Inr hs4)"
proof -
  obtain hs1 where s1: "createHarvests cfg ch contracts = ([], Inr hs1)"
    using stage_cases(1) [of cfg ch contracts] assms
    by (auto simp: evaluate_def promise_then_def)
  obtain hs2 where s2: "addHarvestTx hs1 = ([], Inr hs2)"
    using stage_cases(2) [of hs1] assms s1
    by (auto simp: evaluate_def promise_then_def)
  obtain hs3 where s3: "addHarvestGain ch hs2 = ([], Inr hs3)"
    using stage_cases(3) [of ch hs2] assms s1 s2
    by (auto simp: evaluate_def promise_then_def)
  have s4: "addHarvestGas cfg ch hs3 = ([], Inr hs4)"
    using stage_cases(4) [of cfg ch hs3] assms s1 s2 s3
    by (auto simp: evaluate_def promise_then_def)
  from s1 s2 s3 s4 show ?thesis by blast
qed

lemma created_fee_pair:
  assumes "mapStrategyToHarvestable cfg ch c i = Inr h"
    and "call_performanceTreasuryFee ch i 1 c = call_performanceTreasuryFee ch i 0 c"
  shows "treasuryFee h = treasuryMax h"
  using assms by (auto simp: mapStrategyToHarvestable_def split: sum.splits)

lemma createHarvests_fee_pair:
  assumes "createHarvests cfg ch contracts = (es, Inr hs1)"
    and "\<forall>i<length (strategyContracts contracts).
           call_performanceTreasuryFee ch i 1 (strategyContracts contracts ! i) =
           call_performanceTreasuryFee ch i 0 (strategyContracts contracts ! i)"
  shows "\<forall>i<length hs1. treasuryFee (hs1 ! i) = treasuryMax (hs1 ! i)"
proof -
  from assms(1) have items: "length hs1 = length (strategyContracts contracts)"
      "\<forall>i<length (strategyContracts contracts).
         mapStrategyToHarvestable cfg ch (strategyContracts contracts ! i) i = Inr (hs1 ! i)"
    using stage_outcome [of ErrorFetchingInformation _ "mapStrategyToHarvestable cfg ch"
        "strategyContracts contracts" es hs1]
    by (simp_all add: createHarvests_def)
  with assms(2) show ?thesis by (auto intro: created_fee_pair)
qed

lemma evaluate_fee_pair:
  assumes "snd (evaluate cfg ch contracts) = Inr hs4"
    and "\<forall>i<length (strategyContracts contracts).
           call_performanceTreasuryFee ch i 1 (strategyContracts contracts ! i) =
           call_performanceTreasuryFee ch i 0 (strategyContracts contracts ! i)"
  shows "\<forall>h\<in>set hs4. treasuryFee h = treasuryMax h"
proof -
  from evaluate_Inr [OF assms(1)] obtain hs1 hs2 hs3 where
    s1: "createHarvests cfg ch contracts = ([], Inr hs1)" and
    s2: "addHarvestTx hs1 = ([], Inr hs2)" and
    s3: "addHarvestGain ch hs2 = ([], Inr hs3)" and
    s4: "addHarvestGas cfg ch hs3 = ([], Inr hs4)"
    by blast
  have fees: "\<forall>i<length hs1. treasuryFee (hs1 ! i) = treasuryMax (hs1 ! i)"
    using createHarvests_fee_pair [OF s1 assms(2)] .
  have t: "hs1 = map harvest.truncate (map harvest_tx.truncate (map harvest_gain.truncate hs4))"
    using addHarvestTx_frame [OF s2] addHarvestGain_frame [OF s3] addHarvestGas_frame [OF s4]
    by simp
  have "treasuryFee (hs4 ! i) = treasuryMax (hs4 ! i)" if "i < length hs4" for i
  proof -
    have "hs1 ! i = harvest.truncate (harvest_tx.truncate (harvest_gain.truncate (hs4 ! i)))"
      using that by (simp add: t)
    then have "treasuryFee (hs1 ! i) = treasuryFee (hs4 ! i)"
        "treasuryMax (hs1 ! i) = treasuryMax (hs4 ! i)"
      by (simp_all add: harvest.defs harvest_tx.defs harvest_gain.defs)
    moreover have "i < length hs1" using that by (simp add: t)
    ultimately show ?thesis using fees by auto
  qed
  then show ?thesis by (auto simp: in_set_conv_nth)
qed

text \<open>
  Claim C10, amended. Both fee fields are read through \<open>performanceTreasuryFee\<close>, by
  two calls. When the second call answers as the first for every strategy, every record
  of the candidate stage, and every record that reaches the filter, has equal numerator
  and denominator; where that value is not zero the treasury gain is the gain itself,
  and on such records the filter keeps exactly those with \<open>gas * gasPrice < gainWAVAX\<close>.
\<close>

theorem equal_fee_reads_make_gain_whole:
  assumes "\<forall>i<length (strategyContracts contracts).
             call_performanceTreasuryFee ch i 1 (strategyContracts contracts ! i) =
             call_performanceTreasuryFee ch i 0 (strategyContracts contracts ! i)"
  shows "(snd (createHarvests cfg ch contracts) = Inr hs1 \<longrightarrow>
            (\<forall>h\<in>set hs1. treasuryFee h = treasuryMax h)) \<and>
         (snd (evaluate cfg ch contracts) = Inr hs \<longrightarrow>
            (\<forall>h\<in>set hs. treasuryFee h = treasuryMax h \<and>
               (treasuryMax h \<noteq> 0 \<longrightarrow> treasuryGainAsAvax h = Inr (gainWAVAX h))) \<and>
            ((\<forall>h\<in>set hs. treasuryMax h \<noteq> 0) \<longrightarrow>
               snd (filterHarvestByCostVsGain hs) =
                 Inr (filter (\<lambda>h. gas h * gasPrice h < gainWAVAX h) hs)))"
proof (intro conjI impI)
  assume "snd (createHarvests cfg ch contracts) = Inr hs1"
  then have "createHarvests cfg ch contracts = (fst (createHarvests cfg ch contracts), Inr hs1)"
    by (metis prod.collapse)
  from createHarvests_fee_pair [OF this assms]
  show "\<forall>h\<in>set hs1. treasuryFee h = treasuryMax h"
    by (auto simp: in_set_conv_nth)
next
  assume ev: "snd (evaluate cfg ch contracts) = Inr hs"
  have pair: "\<forall>h\<in>set hs. treasuryFee h = treasuryMax h"
    using evaluate_fee_pair [OF ev assms] .
  then show "\<forall>h\<in>set hs. treasuryFee h = treasuryMax h \<and>
               (treasuryMax h \<noteq> 0 \<longrightarrow> treasuryGainAsAvax h = Inr (gainWAVAX h))"
    by (simp add: treasuryGainAsAvax_def bn_div_def)
  assume nz: "\<forall>h\<in>set hs. treasuryMax h \<noteq> 0"
  have "filter (\<lambda>h. gas h * gasPrice h < gainWAVAX h * treasuryFee h div treasuryMax h) hs =
        filter (\<lambda>h. gas h * gasPrice h < gainWAVAX h) hs"
    using pair nz by (intro filter_cong) auto
  with filter_outcome [OF nz]
  show "snd (filterHarvestByCostVsGain hs) = Inr (filter (\<lambda>h. gas h * gasPrice h < gainWAVAX h) hs)"
    by simp
qed

lemma steady_evaluate:
  "evaluate example_cfg steady_chain example_targets = ([], Inr [steady_record])"
  by (simp add: stage_defs example_defs steady_record_def drifted_record_def)

theorem equal_fee_reads_make_gain_whole_witness:
  "call_performanceTreasuryFee steady_chain 0 1 example_strategy =
     call_performanceTreasuryFee steady_chain 0 0 example_strategy \<and>
   snd (evaluate example_cfg steady_chain example_targets) = Inr [steady_record] \<and>
   treasuryFee steady_record = treasuryMax steady_record \<and>
   treasuryMax steady_record \<noteq> 0 \<and>
   treasuryGainAsAvax steady_record = Inr (gainWAVAX steady_record) \<and>
   snd (filterHarvestByCostVsGain [steady_record]) = Inr [steady_record]"
proof -
  have reads: "\<forall>i<length (strategyContracts example_targets).
      call_performanceTreasuryFee steady_chain i 1 (strategyContracts example_targets ! i) =
      call_performanceTreasuryFee steady_chain i 0 (strategyContracts example_targets ! i)"
    by (simp add: steady_chain_def)
  have ev: "snd (evaluate example_cfg steady_chain example_targets) = Inr [steady_record]"
    by (simp add: steady_evaluate)
  have nz: "treasuryMax steady_record \<noteq> 0"
    by (simp add: steady_record_def)
  have cost: "gas steady_record * gasPrice steady_record < gainWAVAX steady_record"
    by (simp add: steady_record_def drifted_record_def)
  from equal_fee_reads_make_gain_whole
    [OF reads, of example_cfg "[]" "[steady_record]", THEN conjunct2, rule_format, OF ev]
  have "treasuryFee steady_record = treasuryMax steady_record"
    "treasuryGainAsAvax steady_record = Inr (gainWAVAX steady_record)"
    "snd (filterHarvestByCostVsGain [steady_record]) = Inr [steady_record]"
    using nz cost by (simp_all del: filterHarvestByCostVsGain.simps)
  with ev nz show ?thesis by (simp add: steady_chain_def)
qed

section \<open>The executor and the reporter\<close>

lemma sends_append [simp]: "sends (es @ fs) = sends es @ sends fs"
  by (induction es rule: sends.induct) auto

lemma reads_append [simp]:
  "transaction_count_reads (es @ fs) = transaction_count_reads es + transaction_count_reads fs"
  by (induction es rule: transaction_count_reads.induct) auto

lemma sends_started:
  "sends (concat (map (\<lambda>i. fst (executeHarvestTx cfg ch n (hs ! i) i)) js)) =
     (if TEST_MODE cfg then []
      else map (\<lambda>i. (tx (hs ! i), submission cfg n (hs ! i) i)) js)"
  by (induction js) (auto simp: executeHarvestTx_def submission_def Let_def)

lemma reads_started:
  "transaction_count_reads (concat (map (\<lambda>i. fst (executeHarvestTx cfg ch n (hs ! i) i)) js)) = 0"
  by (induction js) (auto simp: executeHarvestTx_def Let_def)

lemma doHarvesting_reads:
  "transaction_count_reads (fst (doHarvesting cfg ch hs)) = 1"
  by (auto simp: doHarvesting_def Let_def map_indexed_conv comp_def reads_started split: sum.splits)

lemma doHarvesting_sends:
  "call_getTransactionCount ch (WALLET_ADDRESS cfg) = Inr n \<Longrightarrow>
   sends (fst (doHarvesting cfg ch hs)) =
     (if TEST_MODE cfg then [] else map_indexed (\<lambda>h i. (tx h, submission cfg n h i)) hs)"
  using sends_started [of cfg ch n hs "[0..<length hs]"]
  by (simp add: doHarvesting_def Let_def map_indexed_conv comp_def)

lemma doHarvesting_result:
  "call_getTransactionCount ch (WALLET_ADDRESS cfg) = Inr n \<Longrightarrow>
   snd (doHarvesting cfg ch hs) =
     Inr (map_indexed (\<lambda>h i. settle (snd (executeHarvestTx cfg ch n h i))) hs, hs)"
  by (simp add: doHarvesting_def Let_def map_indexed_conv comp_def promise_allSettled_def)

lemma map_indexed_nonces:
  "map (nonce \<circ> snd) (map_indexed (\<lambda>h i. (tx h, submission cfg n h i)) hs) = [n..<n + length hs]"
  by (rule nth_equalityI) (auto simp: submission_def)

lemma doHarvesting_results_nth:
  "i < length hs \<Longrightarrow>
   map_indexed (\<lambda>h i. settle (snd (executeHarvestTx cfg ch n h i))) hs ! i =
     (if TEST_MODE cfg then Fulfilled None
      else settle (map_sum id Some (call_send ch i (tx (hs ! i)) (submission cfg n (hs ! i) i))))"
  by (simp add: executeHarvestTx_def submission_def Let_def)

text \<open>
  Claim C3. The executor reads the wallet's transaction count once. When the read gives
  \<open>baseNonce\<close>, it returns the very list it was given together with one result per
  record, in the order of the records: the result at position \<open>i\<close> is what the chain
  answered to the submission of record \<open>i\<close> (in test mode, where nothing is
  submitted, the fulfilled value \<open>undefined\<close>). Outside test mode it submits the
  records in order, record \<open>i\<close> with nonce \<open>baseNonce + i\<close>, whatever the chain
  answers to any submission.
\<close>

theorem executor_assigns_consecutive_nonces:
  "transaction_count_reads (fst (doHarvesting cfg ch hs)) = 1 \<and>
   (call_getTransactionCount ch (WALLET_ADDRESS cfg) = Inr baseNonce \<longrightarrow>
      (\<exists>results.
         snd (doHarvesting cfg ch hs) = Inr (results, hs) \<and> length results = length hs \<and>
         (TEST_MODE cfg \<longrightarrow> (\<forall>i<length hs. results ! i = Fulfilled None)) \<and>
         (\<not> TEST_MODE cfg \<longrightarrow>
            (\<forall>i<length hs.
               results ! i =
                 settle (map_sum id Some
                   (call_send ch i (tx (hs ! i)) (submission cfg baseNonce (hs ! i) i)))))) \<and>
      (\<not> TEST_MODE cfg \<longrightarrow>
         sends (fst (doHarvesting cfg ch hs)) =
           map_indexed (\<lambda>h i. (tx h, submission cfg baseNonce h i)) hs \<and>
         map (nonce \<circ> snd) (sends (fst (doHarvesting cfg ch hs))) =
           [baseNonce..<baseNonce + length hs]))"
proof (intro conjI impI)
  show "transaction_count_reads (fst (doHarvesting cfg ch hs)) = 1"
    by (rule doHarvesting_reads)
next
  assume read: "call_getTransactionCount ch (WALLET_ADDRESS cfg) = Inr baseNonce"
  let ?rs = "map_indexed (\<lambda>h i. settle (snd (executeHarvestTx cfg ch baseNonce h i))) hs"
  have "snd (doHarvesting cfg ch hs) = Inr (?rs, hs)"
    using read by (rule doHarvesting_result)
  moreover have "length ?rs = length hs" by simp
  moreover have "TEST_MODE cfg \<longrightarrow> (\<forall>i<length hs. ?rs ! i = Fulfilled None)"
    by (simp add: doHarvesting_results_nth del: nth_map_indexed)
  moreover have "\<not> TEST_MODE cfg \<longrightarrow>
      (\<forall>i<length hs. ?rs ! i =
         settle (map_sum id Some
           (call_send ch i (tx (hs ! i)) (submission cfg baseNonce (hs ! i) i))))"
    by (simp add: doHarvesting_results_nth del: nth_map_indexed)
  ultimately show "\<exists>results.
         snd (doHarvesting cfg ch hs) = Inr (results, hs) \<and> length results = length hs \<and>
         (TEST_MODE cfg \<longrightarrow> (\<forall>i<length hs. results ! i = Fulfilled None)) \<and>
         (\<not> TEST_MODE cfg \<longrightarrow>
            (\<forall>i<length hs.
               results ! i =
                 settle (map_sum id Some
                   (call_send ch i (tx (hs ! i)) (submission cfg baseNonce (hs ! i) i)))))"
    by (intro exI [of _ ?rs]) blast
next
  assume read: "call_getTransactionCount ch (WALLET_ADDRESS cfg) = Inr baseNonce"
    and live: "\<not> TEST_MODE cfg"
  show s: "sends (fst (doHarvesting cfg ch hs)) =
      map_indexed (\<lambda>h i. (tx h, submission cfg baseNonce h i)) hs"
    using live by (simp add: doHarvesting_sends [OF read])
  show "map (nonce \<circ> snd) (sends (fst (doHarvesting cfg ch hs))) =
      [baseNonce..<baseNonce + length hs]"
    unfolding s by (rule map_indexed_nonces)
qed

theorem executor_assigns_consecutive_nonces_witness:
  "call_getTransactionCount steady_chain (WALLET_ADDRESS example_cfg) = Inr 7 \<and>
   \<not> TEST_MODE example_cfg \<and>
   transaction_count_reads
     (fst (doHarvesting example_cfg steady_chain [example_record 3, example_record 4])) = 1 \<and>
   map (nonce \<circ> snd)
     (sends (fst (doHarvesting example_cfg steady_chain [example_record 3, example_record 4])))
     = [7, 8] \<and>
   (\<exists>results.
      snd (doHarvesting example_cfg steady_chain [example_record 3, example_record 4])
        = Inr (results, [example_record 3, example_record 4]) \<and>
      length results = 2 \<and>
      results ! 0 = Fulfilled (Some example_receipt) \<and>
      results ! 1 = Rejected (RpcError ''reverted''))"
proof -
  let ?hs = "[example_record 3, example_record 4]"
  have read: "call_getTransactionCount steady_chain (WALLET_ADDRESS example_cfg) = Inr 7"
    by (simp add: steady_chain_def)
  have live: "\<not> TEST_MODE example_cfg"
    by (simp add: example_cfg_def)
  have range: "[7..<7 + length ?hs] = [7, 8]"
    by (simp add: upt_rec)
  have s0: "call_send steady_chain 0 (tx (?hs ! 0)) (submission example_cfg 7 (?hs ! 0) 0)
      = Inr example_receipt"
    by (simp add: steady_chain_def)
  have s1: "call_send steady_chain 1 (tx (?hs ! 1)) (submission example_cfg 7 (?hs ! 1) 1)
      = Inl (RpcError ''reverted'')"
    by (simp add: steady_chain_def)
  note inst = executor_assigns_consecutive_nonces [of example_cfg steady_chain ?hs 7]
  from inst have once: "transaction_count_reads (fst (doHarvesting example_cfg steady_chain ?hs)) = 1"
    by blast
  from inst read live have nonces: "map (nonce \<circ> snd)
      (sends (fst (doHarvesting example_cfg steady_chain ?hs))) = [7..<7 + length ?hs]"
    by blast
  from inst read live obtain results where
    res: "snd (doHarvesting example_cfg steady_chain ?hs) = Inr (results, ?hs)"
    and len: "length results = length ?hs"
    and nth: "\<forall>i<length ?hs. results ! i =
        settle (map_sum id Some
          (call_send steady_chain i (tx (?hs ! i)) (submission example_cfg 7 (?hs ! i) i)))"
    by blast
  have r0: "results ! 0 = Fulfilled (Some example_receipt)"
    using nth [rule_format, of 0] unfolding s0 by simp
  have r1: "results ! 1 = Rejected (RpcError ''reverted'')"
    using nth [rule_format, of 1] unfolding s1 by simp
  from res len r0 r1 have "\<exists>results.
      snd (doHarvesting example_cfg steady_chain ?hs) = Inr (results, ?hs) \<and>
      length results = 2 \<and>
      results ! 0 = Fulfilled (Some example_receipt) \<and>
      results ! 1 = Rejected (RpcError ''reverted'')"
    by (intro exI [of _ results]) simp
  with once nonces read live show ?thesis unfolding range by blast
qed

lemma logHarvestingResults_from_reports:
  "i + length rs \<le> length hs \<Longrightarrow>
   logHarvestingResults_from cfg i rs hs =
     (concat (map (\<lambda>j. report cfg (rs ! j) (hs ! (i + j))) [0..<length rs]), Inr ())"
proof (induction rs arbitrary: i)
  case Nil
  then show ?case by simp
next
  case (Cons r rs)
  have shift: "[0..<length (r # rs)] = 0 # map Suc [0..<length rs]"
    by (simp add: upt_conv_Cons map_Suc_upt del: upt_Suc)
  from Cons.prems have "Suc i + length rs \<le> length hs" and "i < length hs" by simp_all
  with Cons.IH [of "Suc i"] show ?case
    unfolding shift by (simp add: comp_def)
qed

lemma logHarvestingResults_reports:
  "length rs = length hs \<Longrightarrow>
   logHarvestingResults cfg (rs, hs) =
     (concat (map (\<lambda>i. report cfg (rs ! i) (hs ! i)) [0..<length hs]), Inr ())"
  using logHarvestingResults_from_reports [of 0 rs hs cfg]
  by (simp add: logHarvestingResults_def)

text \<open>
  Claim C5. When the nonce read succeeds, the executor returns one settled result per
  record, in the order of the records, and the result at position \<open>i\<close> is the outcome
  of submission \<open>i\<close> alone. The reporter then prints one summary per record in that
  order; outside test mode it is the failure summary, with the reason, exactly for the
  records whose own submission was rejected, and the success summary for the others.
\<close>

theorem submissions_settle_independently:
  assumes "call_getTransactionCount ch (WALLET_ADDRESS cfg) = Inr baseNonce"
  shows "\<exists>results.
           snd (doHarvesting cfg ch hs) = Inr (results, hs) \<and>
           length results = length hs \<and>
           (\<forall>i<length hs.
              results ! i = settle (snd (executeHarvestTx cfg ch baseNonce (hs ! i) i))) \<and>
           logHarvestingResults cfg (results, hs) =
             (concat (map (\<lambda>i. report cfg (results ! i) (hs ! i)) [0..<length hs]), Inr ()) \<and>
           (\<not> TEST_MODE cfg \<longrightarrow>
              (\<forall>i<length hs.
                 results ! i =
                   settle (map_sum id Some
                     (call_send ch i (tx (hs ! i)) (submission cfg baseNonce (hs ! i) i)))) \<and>
              (\<forall>i<length hs. \<forall>e.
                 call_send ch i (tx (hs ! i)) (submission cfg baseNonce (hs ! i) i) = Inl e \<longrightarrow>
                 report cfg (results ! i) (hs ! i) = failure_summary e (hs ! i)) \<and>
              (\<forall>i<length hs. \<forall>r.
                 call_send ch i (tx (hs ! i)) (submission cfg baseNonce (hs ! i) i) = Inr r \<longrightarrow>
                 report cfg (results ! i) (hs ! i) = success_summary cfg (Some r) (hs ! i)))"
proof -
  let ?rs = "map_indexed (\<lambda>h i. settle (snd (executeHarvestTx cfg ch baseNonce h i))) hs"
  have res: "snd (doHarvesting cfg ch hs) = Inr (?rs, hs)"
    using assms by (rule doHarvesting_result)
  have logs: "logHarvestingResults cfg (?rs, hs) =
      (concat (map (\<lambda>i. report cfg (?rs ! i) (hs ! i)) [0..<length hs]), Inr ())"
    by (rule logHarvestingResults_reports) simp
  have nth: "?rs ! i =
      settle (map_sum id Some (call_send ch i (tx (hs ! i)) (submission cfg baseNonce (hs ! i) i)))"
    if "i < length hs" "\<not> TEST_MODE cfg" for i
    using that by (simp add: executeHarvestTx_def submission_def Let_def)
  have failed: "report cfg (?rs ! i) (hs ! i) = failure_summary e (hs ! i)"
    if "i < length hs" "\<not> TEST_MODE cfg"
      and "call_send ch i (tx (hs ! i)) (submission cfg baseNonce (hs ! i) i) = Inl e" for i e
    using that
    by (simp add: nth report_def failure_summary_def del: nth_map_indexed)
  have succeeded: "report cfg (?rs ! i) (hs ! i) = success_summary cfg (Some r) (hs ! i)"
    if "i < length hs" "\<not> TEST_MODE cfg"
      and "call_send ch i (tx (hs ! i)) (submission cfg baseNonce (hs ! i) i) = Inr r" for i r
    using that
    by (simp add: nth report_def success_summary_def del: nth_map_indexed)
  show ?thesis
    using res logs nth failed succeeded by (intro exI [of _ ?rs]) simp
qed

theorem submissions_settle_independently_witness:
  "call_getTransactionCount steady_chain (WALLET_ADDRESS example_cfg) = Inr 7 \<and>
   \<not> TEST_MODE example_cfg \<and>
   call_send steady_chain 1 (tx (example_record 3)) (submission example_cfg 7 (example_record 3) 1)
     = Inl (RpcError ''reverted'') \<and>
   call_send steady_chain 2 (tx (example_record 3)) (submission example_cfg 7 (example_record 3) 2)
     = Inr example_receipt \<and>
   (\<exists>results.
      snd (doHarvesting example_cfg steady_chain
             [example_record 3, example_record 3, example_record 3])
        = Inr (results, [example_record 3, example_record 3, example_record 3]) \<and>
      length results = 3 \<and>
      results ! 1 = Rejected (RpcError ''reverted'') \<and>
      results ! 2 = Fulfilled (Some example_receipt) \<and>
      report example_cfg (results ! 1) (example_record 3)
        = failure_summary (RpcError ''reverted'') (example_record 3) \<and>
      report example_cfg (results ! 2) (example_record 3)
        = success_summary example_cfg (Some example_receipt) (example_record 3))"
proof -
  let ?r = "example_record 3"
  have read: "call_getTransactionCount steady_chain (WALLET_ADDRESS example_cfg) = Inr 7"
    by (simp add: steady_chain_def)
  have live: "\<not> TEST_MODE example_cfg"
    by (simp add: example_cfg_def)
  have s1: "call_send steady_chain 1 (tx ?r) (submission example_cfg 7 ?r 1)
      = Inl (RpcError ''reverted'')"
    by (simp add: steady_chain_def)
  have s2: "call_send steady_chain 2 (tx ?r) (submission example_cfg 7 ?r 2) = Inr example_receipt"
    by (simp add: steady_chain_def)
  from submissions_settle_independently [OF read, of "[?r, ?r, ?r]"]
  obtain results where
    res: "snd (doHarvesting example_cfg steady_chain [?r, ?r, ?r]) = Inr (results, [?r, ?r, ?r])"
    and len: "length results = length [?r, ?r, ?r]"
    and nth: "\<forall>i<length [?r, ?r, ?r]. results ! i =
        settle (map_sum id Some
          (call_send steady_chain i (tx ([?r, ?r, ?r] ! i))
             (submission example_cfg 7 ([?r, ?r, ?r] ! i) i)))"
    and failed: "\<forall>i<length [?r, ?r, ?r]. \<forall>e.
        call_send steady_chain i (tx ([?r, ?r, ?r] ! i))
          (submission example_cfg 7 ([?r, ?r, ?r] ! i) i) = Inl e \<longrightarrow>
        report example_cfg (results ! i) ([?r, ?r, ?r] ! i) = failure_summary e ([?r, ?r, ?r] ! i)"
    and succeeded: "\<forall>i<length [?r, ?r, ?r]. \<forall>r.
        call_send steady_chain i (tx ([?r, ?r, ?r] ! i))
          (submission example_cfg 7 ([?r, ?r, ?r] ! i) i) = Inr r \<longrightarrow>
        report example_cfg (results ! i) ([?r, ?r, ?r] ! i)
          = success_summary example_cfg (Some r) ([?r, ?r, ?r] ! i)"
    using live by blast
  have r1: "results ! 1 = Rejected (RpcError ''reverted'')"
    using nth [rule_format, of 1] s1 by simp
  have r2: "results ! 2 = Fulfilled (Some example_receipt)"
    using nth [rule_format, of 2] s2 by simp
  have f1: "report example_cfg (results ! 1) ?r = failure_summary (RpcError ''reverted'') ?r"
    using failed [rule_format, of 1 "RpcError ''reverted''"] s1 by simp
  have f2: "report example_cfg (results ! 2) ?r
      = success_summary example_cfg (Some example_receipt) ?r"
    using succeeded [rule_format, of 2 example_receipt] s2 by simp
  from res len r1 r2 f1 f2 have "\<exists>results.
      snd (doHarvesting example_cfg steady_chain [?r, ?r, ?r]) = Inr (results, [?r, ?r, ?r]) \<and>
      length results = 3 \<and>
      results ! 1 = Rejected (RpcError ''reverted'') \<and>
      results ! 2 = Fulfilled (Some example_receipt) \<and>
      report example_cfg (results ! 1) ?r = failure_summary (RpcError ''reverted'') ?r \<and>
      report example_cfg (results ! 2) ?r = success_summary example_cfg (Some example_receipt) ?r"
    by (intro exI [of _ results]) simp
  with read live s1 s2 show ?thesis by blast
qed

subsection \<open>Test mode\<close>

lemma console_errors_append [simp]:
  "console_errors (es @ fs) = console_errors es @ console_errors fs"
  by (induction es rule: console_errors.induct) auto

lemma test_mode_results:
  "TEST_MODE cfg \<Longrightarrow>
   map_indexed (\<lambda>h i. settle (snd (executeHarvestTx cfg ch n h i))) hs =
     replicate (length hs) (Fulfilled None)"
  by (rule nth_equalityI) (auto simp: executeHarvestTx_def)

lemma sends_catch_rethrow [simp]: "sends (fst (catch_rethrow msg r)) = []"
  by (cases r) (simp_all add: catch_rethrow_def)

lemma sends_filter [simp]: "sends (fst (filterHarvestByCostVsGain hs)) = []"
  by (induction hs) (simp_all add: case_prod_beta Let_def split: sum.splits)

lemma sends_report [simp]: "sends (report cfg r h) = []"
  by (simp add: report_def Let_def)

lemma sends_log_from [simp]: "sends (fst (logHarvestingResults_from cfg i rs hs)) = []"
  by (induction rs arbitrary: i) (simp_all add: case_prod_beta)

lemma sends_log [simp]: "sends (fst (logHarvestingResults cfg p)) = []"
  by (cases p) (simp add: logHarvestingResults_def)

lemma sends_doHarvesting_test_mode:
  "TEST_MODE cfg \<Longrightarrow> sends (fst (doHarvesting cfg ch hs)) = []"
  by (cases "call_getTransactionCount ch (WALLET_ADDRESS cfg)")
     (simp_all add: doHarvesting_sends, simp add: doHarvesting_def)

lemma sends_then:
  assumes "sends (fst p) = []" and "\<And>v. sends (fst (f v)) = []"
  shows "sends (fst (promise_then p f)) = []"
  using assms by (simp add: promise_then_def case_prod_beta split: sum.splits)

lemma sends_loop_test_mode:
  assumes "TEST_MODE cfg"
  shows "sends (loop cfg ch contracts) = []"
proof -
  have "sends (fst (pipeline cfg ch contracts)) = []"
    unfolding pipeline_def evaluate_def createHarvests_def addHarvestTx_def addHarvestGain_def
      addHarvestGas_def
    by (intro sends_then) (simp_all add: sends_doHarvesting_test_mode [OF assms])
  then show ?thesis
    by (simp add: loop_def promise_catch_def handleError_def case_prod_beta split: sum.splits)
qed

text \<open>
  Claim C7. In test mode no cycle and no batch contains a submission. When the nonce
  read succeeds, every record's result is the fulfilled value \<open>undefined\<close>, the
  reporter prints the success summary (with the strategy's own address and no
  transaction hash) for every record, and no line goes to the error console.
\<close>

theorem dry_run_never_submits:
  assumes "TEST_MODE cfg"
  shows "sends (loop cfg ch contracts) = [] \<and>
         sends (fst (doHarvesting cfg ch hs)) = [] \<and>
         (call_getTransactionCount ch (WALLET_ADDRESS cfg) = Inr baseNonce \<longrightarrow>
            snd (doHarvesting cfg ch hs) = Inr (replicate (length hs) (Fulfilled None), hs) \<and>
            logHarvestingResults cfg (replicate (length hs) (Fulfilled None), hs) =
              (concat (map (success_summary cfg None) hs), Inr ()) \<and>
            console_errors (concat (map (success_summary cfg None) hs)) = [])"
proof -
  have reports: "concat (map (\<lambda>i. report cfg (replicate (length hs) (Fulfilled None) ! i) (hs ! i))
                   [0..<length hs]) = concat (map (success_summary cfg None) hs)"
  proof -
    have "map (\<lambda>i. report cfg (replicate (length hs) (Fulfilled None) ! i) (hs ! i)) [0..<length hs]
          = map (success_summary cfg None) hs"
      using assms by (intro nth_equalityI) (auto simp: report_def success_summary_def)
    then show ?thesis by simp
  qed
  have quiet: "console_errors (concat (map (success_summary cfg None) hs)) = []"
    by (induction hs) (simp_all add: success_summary_def)
  show ?thesis
    using sends_loop_test_mode [OF assms] sends_doHarvesting_test_mode [OF assms] reports quiet
      assms
    by (simp add: doHarvesting_result test_mode_results logHarvestingResults_reports)
qed

theorem dry_run_never_submits_witness:
  "TEST_MODE test_cfg \<and>
   call_getTransactionCount steady_chain (WALLET_ADDRESS test_cfg) = Inr 7 \<and>
   sends (loop test_cfg steady_chain example_targets) = [] \<and>
   sends (fst (doHarvesting test_cfg steady_chain [example_record 3, example_record 3])) = [] \<and>
   snd (doHarvesting test_cfg steady_chain [example_record 3, example_record 3])
     = Inr ([Fulfilled None, Fulfilled None], [example_record 3, example_record 3]) \<and>
   logHarvestingResults test_cfg
       ([Fulfilled None, Fulfilled None], [example_record 3, example_record 3])
     = (success_summary test_cfg None (example_record 3)
          @ success_summary test_cfg None (example_record 3), Inr ())"
proof -
  have mode: "TEST_MODE test_cfg"
    by (simp add: test_cfg_def)
  have read: "call_getTransactionCount steady_chain (WALLET_ADDRESS test_cfg) = Inr 7"
    by (simp add: steady_chain_def)
  have two: "replicate (length [example_record 3, example_record 3]) (Fulfilled None)
      = [Fulfilled None, Fulfilled None :: receipt option settled]"
    by simp
  from dry_run_never_submits
    [OF mode, of steady_chain example_targets "[example_record 3, example_record 3]" 7]
  show ?thesis using mode read unfolding two by simp
qed

section \<open>The process after a failed cycle\<close>

lemma timeouts_of_append [simp]:
  "timeouts_of now (es @ fs) = timeouts_of now es @ timeouts_of now fs"
  by (induction now es rule: timeouts_of.induct) auto

lemma timeouts_catch_rethrow [simp]: "timeouts_of now (fst (catch_rethrow msg r)) = []"
  by (cases r) (simp_all add: catch_rethrow_def)

lemma timeouts_filter [simp]: "timeouts_of now (fst (filterHarvestByCostVsGain hs)) = []"
  by (induction hs) (simp_all add: case_prod_beta Let_def split: sum.splits)

lemma timeouts_started:
  "timeouts_of now (concat (map (\<lambda>i. fst (executeHarvestTx cfg ch n (hs ! i) i)) js)) = []"
  by (induction js) (auto simp: executeHarvestTx_def Let_def)

lemma timeouts_doHarvesting [simp]: "timeouts_of now (fst (doHarvesting cfg ch hs)) = []"
  by (auto simp: doHarvesting_def Let_def map_indexed_conv comp_def timeouts_started
      split: sum.splits)

lemma timeouts_report [simp]: "timeouts_of now (report cfg r h) = []"
  by (simp add: report_def Let_def)

lemma timeouts_log_from [simp]:
  "timeouts_of now (fst (logHarvestingResults_from cfg i rs hs)) = []"
  by (induction rs arbitrary: i) (simp_all add: case_prod_beta)

lemma timeouts_log [simp]: "timeouts_of now (fst (logHarvestingResults cfg p)) = []"
  by (cases p) (simp add: logHarvestingResults_def)

lemma timeouts_then:
  assumes "timeouts_of now (fst p) = []" and "\<And>v. timeouts_of now (fst (f v)) = []"
  shows "timeouts_of now (fst (promise_then p f)) = []"
  using assms by (simp add: promise_then_def case_prod_beta split: sum.splits)

lemma timeouts_pipeline: "timeouts_of now (fst (pipeline cfg ch contracts)) = []"
  unfolding pipeline_def evaluate_def createHarvests_def addHarvestTx_def addHarvestGain_def
    addHarvestGas_def
  by (intro timeouts_then) simp_all

lemma loop_failed:
  "snd (pipeline cfg ch contracts) = Inl e \<Longrightarrow>
   loop cfg ch contracts =
     fst (pipeline cfg ch contracts) @ [Err (Thrown e), SetTimeout 1000 (ProcessExit 1)]"
  by (cases "pipeline cfg ch contracts") (simp add: loop_def promise_catch_def handleError_def)

lemma step_exited: "exit_code s \<noteq> None \<Longrightarrow> step cfg w contracts s = s"
  by (simp add: step_def)

lemma run_exited: "exit_code s \<noteq> None \<Longrightarrow> run n cfg w contracts s = s"
  by (induction n) (simp_all add: step_exited)

lemma run_add: "run (m + n) cfg w contracts s = run n cfg w contracts (run m cfg w contracts s)"
  by (induction m arbitrary: s) simp_all

lemma step_exit_timer:
  "exit_code s = None \<Longrightarrow> next_task (pending s) = Some ((t, Timeout (ProcessExit c)), rest) \<Longrightarrow>
   exit_code (step cfg w contracts s) = Some c"
  by (simp add: step_def)

lemma failed_first_cycle:
  assumes "snd (pipeline cfg (cycle_chain w 0) contracts) = Inl e"
    and "latency w 0 + 1000 < INTERVAL cfg"
  shows "run 2 cfg w contracts (boot cfg w contracts) =
           \<lparr>clock = latency w 0 + 1000,
            pending = [(INTERVAL cfg, IntervalTick)],
            exit_code = Some 1,
            console = loop cfg (cycle_chain w 0) contracts,
            cycles = 1\<rparr>"
proof -
  have two: "run 2 cfg w contracts s = step cfg w contracts (step cfg w contracts s)" for s
    by (simp add: numeral_2_eq_2)
  have "timeouts_of now (loop cfg (cycle_chain w 0) contracts)
          = [(now + 1000, Timeout (ProcessExit 1))]" for now
    by (simp add: loop_failed [OF assms(1)] timeouts_pipeline)
  then show ?thesis
    using assms(2) unfolding two
    by (simp add: boot_def start_cycle_def step_def Let_def max_def)
qed

lemma failing_pipeline:
  "pipeline example_cfg failing_chain example_targets =
     ([Err ErrorFetchingInformation], Inl (RpcError ''timeout''))"
  by (simp add: pipeline_def stage_defs example_defs failing_chain_def)

lemma example_main:
  "main example_isAddress example_cfg steady_chain failing_world
     = Inr (example_targets, boot example_cfg failing_world example_targets)"
  by (simp add: main_def initContracts_def example_isAddress_def example_defs target_of_def)

text \<open>
  Claim C2, as stated, fails: the error handler does not leave the process running. On
  a chain whose harvestable read is rejected the first cycle fails 250 ms after the
  start; two events later, at 1250 ms, the process has exited with status 1. The tick
  due at 60000 ms never runs: the first cycle stays the only one.
\<close>

theorem failed_cycle_exits_process:
  "main example_isAddress example_cfg steady_chain failing_world
     = Inr (example_targets, boot example_cfg failing_world example_targets) \<and>
   snd (pipeline example_cfg (cycle_chain failing_world 0) example_targets)
     = Inl (RpcError ''timeout'') \<and>
   exit_code (run 2 example_cfg failing_world example_targets
                (boot example_cfg failing_world example_targets)) = Some 1 \<and>
   clock (run 2 example_cfg failing_world example_targets
                (boot example_cfg failing_world example_targets)) = 1250 \<and>
   cycles (run 3 example_cfg failing_world example_targets
                (boot example_cfg failing_world example_targets)) = 1"
proof -
  have p: "snd (pipeline example_cfg (cycle_chain failing_world 0) example_targets)
     = Inl (RpcError ''timeout'')"
    by (simp add: failing_world_def failing_pipeline)
  have l: "latency failing_world 0 + 1000 < INTERVAL example_cfg"
    by (simp add: failing_world_def example_cfg_def)
  note two = failed_first_cycle [OF p l]
  have three: "run 3 example_cfg failing_world example_targets
                 (boot example_cfg failing_world example_targets)
             = run 2 example_cfg failing_world example_targets
                 (boot example_cfg failing_world example_targets)"
    using run_add [of 2 1 example_cfg failing_world example_targets]
    by (simp add: two step_exited)
  have d: "latency failing_world 0 + 1000 = 1250"
    by (simp add: failing_world_def)
  show ?thesis
    unfolding three using p example_main by (simp add: two d)
qed

text \<open>
  Claim C2, amended. When a cycle fails, the error handler logs the error and arms a
  timer of 1000 ms whose action is \<open>process.exit(1)\<close>. When that timer is the task
  due, the process exits with status 1, and an exited process takes no further step.
  If the first cycle fails and the interval is longer than the cycle's duration plus
  1000 ms, the process has exited after two events, 1000 ms after the failure, and the
  first cycle is the only one it ever starts. Discovery runs once, before the first
  cycle; when it fails the start-up fails and no cycle is scheduled.
\<close>

theorem stage_failure_ends_process:
  "(snd (pipeline cfg ch contracts) = Inl e \<longrightarrow>
      loop cfg ch contracts =
        fst (pipeline cfg ch contracts) @ [Err (Thrown e), SetTimeout 1000 (ProcessExit 1)]) \<and>
   (exit_code s = None \<and> next_task (pending s) = Some ((t, Timeout (ProcessExit c)), rest) \<longrightarrow>
      exit_code (step cfg w contracts s) = Some c) \<and>
   (exit_code s' \<noteq> None \<longrightarrow> run n cfg w contracts s' = s') \<and>
   (snd (pipeline cfg (cycle_chain w 0) contracts) = Inl e \<and>
    latency w 0 + 1000 < INTERVAL cfg \<longrightarrow>
      exit_code (run (2 + n) cfg w contracts (boot cfg w contracts)) = Some 1 \<and>
      cycles (run (2 + n) cfg w contracts (boot cfg w contracts)) = 1 \<and>
      clock (run (2 + n) cfg w contracts (boot cfg w contracts)) = latency w 0 + 1000) \<and>
   (initContracts isAddress cfg ch0 (WANTS cfg) = Inl e0 \<longrightarrow>
      main isAddress cfg ch0 w = Inl e0)"
proof (intro conjI impI; (elim conjE)?)
  assume "snd (pipeline cfg ch contracts) = Inl e"
  then show "loop cfg ch contracts =
        fst (pipeline cfg ch contracts) @ [Err (Thrown e), SetTimeout 1000 (ProcessExit 1)]"
    by (rule loop_failed)
next
  assume "exit_code s = None" "next_task (pending s) = Some ((t, Timeout (ProcessExit c)), rest)"
  then show "exit_code (step cfg w contracts s) = Some c"
    by (rule step_exit_timer)
next
  assume "exit_code s' \<noteq> None"
  then show "run n cfg w contracts s' = s'" by (rule run_exited)
next
  assume a: "snd (pipeline cfg (cycle_chain w 0) contracts) = Inl e"
    "latency w 0 + 1000 < INTERVAL cfg"
  have "run (2 + n) cfg w contracts (boot cfg w contracts) =
          run 2 cfg w contracts (boot cfg w contracts)"
    unfolding run_add by (rule run_exited) (simp add: failed_first_cycle [OF a])
  then show "exit_code (run (2 + n) cfg w contracts (boot cfg w contracts)) = Some 1"
    "cycles (run (2 + n) cfg w contracts (boot cfg w contracts)) = 1"
    "clock (run (2 + n) cfg w contracts (boot cfg w contracts)) = latency w 0 + 1000"
    by (simp_all add: failed_first_cycle [OF a])
next
  assume "initContracts isAddress cfg ch0 (WANTS cfg) = Inl e0"
  then show "main isAddress cfg ch0 w = Inl e0"
    by (simp add: main_def)
qed

theorem stage_failure_ends_process_witness:
  "snd (pipeline example_cfg (cycle_chain failing_world 0) example_targets)
     = Inl (RpcError ''timeout'') \<and>
   latency failing_world 0 + 1000 < INTERVAL example_cfg \<and>
   loop example_cfg (cycle_chain failing_world 0) example_targets =
     [Err ErrorFetchingInformation, Err (Thrown (RpcError ''timeout'')),
      SetTimeout 1000 (ProcessExit 1)] \<and>
   exit_code (run (2 + 5) example_cfg failing_world example_targets
                (boot example_cfg failing_world example_targets)) = Some 1 \<and>
   cycles (run (2 + 5) example_cfg failing_world example_targets
                (boot example_cfg failing_world example_targets)) = 1 \<and>
   clock (run (2 + 5) example_cfg failing_world example_targets
                (boot example_cfg failing_world example_targets)) = 1250"
proof -
  have p: "snd (pipeline example_cfg (cycle_chain failing_world 0) example_targets)
     = Inl (RpcError ''timeout'')"
    by (simp add: failing_world_def failing_pipeline)
  have f: "fst (pipeline example_cfg (cycle_chain failing_world 0) example_targets)
     = [Err ErrorFetchingInformation]"
    by (simp add: failing_world_def failing_pipeline)
  have l: "latency failing_world 0 + 1000 < INTERVAL example_cfg"
    by (simp add: failing_world_def example_cfg_def)
  have d: "latency failing_world 0 + 1000 = 1250"
    by (simp add: failing_world_def)
  note inst = stage_failure_ends_process
    [where cfg = example_cfg and w = failing_world and contracts = example_targets
       and ch = "cycle_chain failing_world 0" and e = "RpcError ''timeout''" and n = 5]
  from inst p have "loop example_cfg (cycle_chain failing_world 0) example_targets =
      fst (pipeline example_cfg (cycle_chain failing_world 0) example_targets)
        @ [Err (Thrown (RpcError ''timeout'')), SetTimeout 1000 (ProcessExit 1)]"
    by blast
  moreover from inst p l have
    "exit_code (run (2 + 5) example_cfg failing_world example_targets
                (boot example_cfg failing_world example_targets)) = Some 1"
    "cycles (run (2 + 5) example_cfg failing_world example_targets
                (boot example_cfg failing_world example_targets)) = 1"
    "clock (run (2 + 5) example_cfg failing_world example_targets
                (boot example_cfg failing_world example_targets)) = latency failing_world 0 + 1000"
    by blast+
  ultimately show ?thesis using p l unfolding f d by simp
qed

end
